theory Spec2Isabelle
  imports Main "HOL-Library.Word" "HOL-Library.Sublist"
begin

section \<open>JavaScript strings\<close>

text \<open>
  The router \<^verbatim>\<open>api/serve-domain.js\<close> works on JavaScript strings, which are
  sequences of 16-bit UTF-16 code units. Header values delivered by the runtime
  and the Chinese texts of the error pages are both such sequences, so a string
  is modelled as a list of 16-bit words. \<open>str\<close> embeds an ASCII literal.
\<close>

type_synonym cu = "16 word"
type_synonym jstring = "cu list"

definition str :: "string \<Rightarrow> jstring" where
  "str s = map of_char s"

text \<open>\<^verbatim>\<open>s.includes(p)\<close>: \<open>p\<close> occurs in \<open>s\<close> as a contiguous run.\<close>

fun js_includes :: "jstring \<Rightarrow> jstring \<Rightarrow> bool" where
  "js_includes [] p = (p = [])"
| "js_includes (c # cs) p = (prefix p (c # cs) \<or> js_includes cs p)"

text \<open>\<^verbatim>\<open>s.split(sep)\<close> for a one-unit separator: the pieces between separators,
  never an empty array.\<close>

fun js_split :: "cu \<Rightarrow> jstring \<Rightarrow> jstring list" where
  "js_split sep [] = [[]]"
| "js_split sep (c # cs) =
     (if c = sep then [] # js_split sep cs
      else (case js_split sep cs of [] \<Rightarrow> [[c]] | w # ws \<Rightarrow> (c # w) # ws))"

text \<open>\<^verbatim>\<open>s.replace(pat, rep)\<close> with a \<^emph>\<open>string\<close> pattern: only the first
  occurrence of the literal text \<open>pat\<close> is replaced.\<close>

fun js_replace_str :: "jstring \<Rightarrow> jstring \<Rightarrow> jstring \<Rightarrow> jstring" where
  "js_replace_str pat rep [] = (if pat = [] then rep else [])"
| "js_replace_str pat rep (c # cs) =
     (if prefix pat (c # cs) then rep @ drop (length pat) (c # cs)
      else c # js_replace_str pat rep cs)"

text \<open>\<^verbatim>\<open>a || b\<close> on header values: \<^verbatim>\<open>undefined\<close> and the empty string
  are falsy.\<close>

fun truthy :: "jstring option \<Rightarrow> bool" where
  "truthy None = False"
| "truthy (Some s) = (s \<noteq> [])"

definition js_or :: "jstring option \<Rightarrow> jstring option \<Rightarrow> jstring option" where
  "js_or a b = (if truthy a then a else b)"

definition or_default :: "jstring option \<Rightarrow> jstring \<Rightarrow> jstring" where
  "or_default a d = (case a of None \<Rightarrow> d | Some s \<Rightarrow> if s = [] then d else s)"


section \<open>Regular expressions\<close>

text \<open>
  The two validation patterns use character classes, concatenation and
  repetition only, and are anchored at both ends, so \<^verbatim>\<open>re.test(s)\<close> is
  membership of the whole string in the pattern's language. Patterns are data;
  \<open>rx_test\<close> decides membership by taking derivatives, one per code unit.
\<close>

datatype rx = Nul | Eps | Cls "cu \<Rightarrow> bool" | Alt rx rx | Cat rx rx | Star rx

fun nullable :: "rx \<Rightarrow> bool" where
  "nullable Nul = False"
| "nullable Eps = True"
| "nullable (Cls p) = False"
| "nullable (Alt a b) = (nullable a \<or> nullable b)"
| "nullable (Cat a b) = (nullable a \<and> nullable b)"
| "nullable (Star a) = True"

fun deriv :: "cu \<Rightarrow> rx \<Rightarrow> rx" where
  "deriv c Nul = Nul"
| "deriv c Eps = Nul"
| "deriv c (Cls p) = (if p c then Eps else Nul)"
| "deriv c (Alt a b) = Alt (deriv c a) (deriv c b)"
| "deriv c (Cat a b) =
     (if nullable a then Alt (Cat (deriv c a) b) (deriv c b) else Cat (deriv c a) b)"
| "deriv c (Star a) = Cat (deriv c a) (Star a)"

fun derivs :: "rx \<Rightarrow> jstring \<Rightarrow> rx" where
  "derivs r [] = r"
| "derivs r (c # cs) = derivs (deriv c r) cs"

definition rx_test :: "rx \<Rightarrow> jstring \<Rightarrow> bool" where
  "rx_test r s = nullable (derivs r s)"

text \<open>The language of a pattern, against which the matcher is proved correct
  (\<open>rx_test_lang\<close> below).\<close>

inductive_set star :: "jstring set \<Rightarrow> jstring set" for A :: "jstring set" where
  star_empty: "[] \<in> star A"
| star_more: "u \<in> A \<Longrightarrow> v \<in> star A \<Longrightarrow> u @ v \<in> star A"

fun lang :: "rx \<Rightarrow> jstring set" where
  "lang Nul = {}"
| "lang Eps = {[]}"
| "lang (Cls p) = {[c] |c. p c}"
| "lang (Alt a b) = lang a \<union> lang b"
| "lang (Cat a b) = {u @ v |u v. u \<in> lang a \<and> v \<in> lang b}"
| "lang (Star a) = star (lang a)"

text \<open>
  Character classes under the \<^verbatim>\<open>i\<close> flag. Without the \<^verbatim>\<open>u\<close> flag a code
  unit above 127 is never folded onto an ASCII one, so \<^verbatim>\<open>[a-z]\<close> matches the
  52 ASCII letters and nothing else.
\<close>

definition is_lower :: "cu \<Rightarrow> bool" where
  "is_lower c = (0x61 \<le> c \<and> c \<le> 0x7A)"

definition is_upper :: "cu \<Rightarrow> bool" where
  "is_upper c = (0x41 \<le> c \<and> c \<le> 0x5A)"

definition is_digit :: "cu \<Rightarrow> bool" where
  "is_digit c = (0x30 \<le> c \<and> c \<le> 0x39)"

definition ch_dot :: cu where "ch_dot = 0x2E"
definition ch_hyphen :: cu where "ch_hyphen = 0x2D"
definition ch_slash :: cu where "ch_slash = 0x2F"
definition ch_backslash :: cu where "ch_backslash = 0x5C"
definition ch_colon :: cu where "ch_colon = 0x3A"

definition cls_az :: "cu \<Rightarrow> bool" where
  "cls_az c = (is_lower c \<or> is_upper c)"

definition cls_az09 :: "cu \<Rightarrow> bool" where
  "cls_az09 c = (is_lower c \<or> is_upper c \<or> is_digit c)"

definition cls_az09dh :: "cu \<Rightarrow> bool" where
  "cls_az09dh c = (is_lower c \<or> is_upper c \<or> is_digit c \<or> c = ch_dot \<or> c = ch_hyphen)"

text \<open>First variant, line 15: \<^verbatim>\<open>/^[a-z0-9][a-z0-9.-]*\.[a-z]{2,}$/i\<close>.\<close>

definition host_rx :: rx where
  "host_rx =
     Cat (Cls cls_az09)
       (Cat (Star (Cls cls_az09dh))
         (Cat (Cls (\<lambda>c. c = ch_dot))
           (Cat (Cls cls_az) (Cat (Cls cls_az) (Star (Cls cls_az))))))"

text \<open>Second variant, line 169: \<^verbatim>\<open>/^[a-z0-9.-]+\.[a-z]{2,}$/i\<close>.\<close>

definition host_rx2 :: rx where
  "host_rx2 =
     Cat (Cls cls_az09dh)
       (Cat (Star (Cls cls_az09dh))
         (Cat (Cls (\<lambda>c. c = ch_dot))
           (Cat (Cls cls_az) (Cat (Cls cls_az) (Star (Cls cls_az))))))"

text \<open>\<^verbatim>\<open>s.replace(/^www\./i, '')\<close>: drop one leading \<^verbatim>\<open>www.\<close> in any
  letter case.\<close>

definition is_w :: "cu \<Rightarrow> bool" where
  "is_w c = (c = 0x77 \<or> c = 0x57)"

fun strip_www :: "jstring \<Rightarrow> jstring" where
  "strip_www (a # b # c # d # rest) =
     (if is_w a \<and> is_w b \<and> is_w c \<and> d = ch_dot then rest else a # b # c # d # rest)"
| "strip_www s = s"


section \<open>Paths\<close>

text \<open>
  \<^verbatim>\<open>join\<close> and \<^verbatim>\<open>normalize\<close> are Node's POSIX path functions (the
  deployment target is Linux). \<^verbatim>\<open>normalize\<close> walks the segments between
  slashes: empty segments and \<^verbatim>\<open>.\<close> are skipped, \<^verbatim>\<open>..\<close> removes the
  segment before it, or is kept when there is none and the path is relative.
  A leading slash and a trailing slash survive.
\<close>

definition dotdot :: jstring where
  "dotdot = [ch_dot, ch_dot]"

definition norm_step :: "bool \<Rightarrow> jstring list \<Rightarrow> jstring \<Rightarrow> jstring list" where
  "norm_step allowAboveRoot res seg =
     (if seg = [] \<or> seg = [ch_dot] then res
      else if seg = dotdot then
        (if res \<noteq> [] \<and> last res \<noteq> dotdot then butlast res
         else if allowAboveRoot then res @ [dotdot]
         else res)
      else res @ [seg])"

definition normalizeString :: "jstring \<Rightarrow> bool \<Rightarrow> jstring list" where
  "normalizeString path allowAboveRoot =
     foldl (norm_step allowAboveRoot) [] (js_split ch_slash path)"

fun join_segments :: "jstring list \<Rightarrow> jstring" where
  "join_segments [] = []"
| "join_segments [s] = s"
| "join_segments (s # t # ss) = s @ ch_slash # join_segments (t # ss)"

definition path_normalize :: "jstring \<Rightarrow> jstring" where
  "path_normalize path =
     (if path = [] then [ch_dot]
      else
        let isAbsolute = (hd path = ch_slash);
            trailingSeparator = (last path = ch_slash);
            p = join_segments (normalizeString path (\<not> isAbsolute))
        in if p = [] then
             (if isAbsolute then [ch_slash]
              else if trailingSeparator then [ch_dot, ch_slash] else [ch_dot])
           else
             (if isAbsolute then [ch_slash] else []) @ p
               @ (if trailingSeparator then [ch_slash] else []))"

fun join_args :: "jstring list \<Rightarrow> jstring option" where
  "join_args [] = None"
| "join_args (a # as) =
     (if a = [] then join_args as
      else (case join_args as of None \<Rightarrow> Some a | Some r \<Rightarrow> Some (a @ ch_slash # r)))"

definition path_join :: "jstring list \<Rightarrow> jstring" where
  "path_join args = (case join_args args of None \<Rightarrow> [ch_dot] | Some joined \<Rightarrow> path_normalize joined)"

definition index_html :: jstring where
  "index_html = str ''index.html''"


section \<open>Requests, the environment and responses\<close>

record request =
  x_forwarded_host :: "jstring option"
  host_header :: "jstring option"
  url :: jstring

text \<open>The response object reaches back to its request through \<^verbatim>\<open>res.req\<close>,
  which an older runtime may leave undefined. Its methods \<^verbatim>\<open>setHeader\<close>,
  \<^verbatim>\<open>status\<close>, \<^verbatim>\<open>send\<close> and \<^verbatim>\<open>json\<close> are taken not to throw; what they
  receive is recorded in the response. Console output is left out.\<close>

record res_sink =
  res_req :: "request option"

text \<open>
  What a filesystem call can throw is classified by \<^verbatim>\<open>error.code\<close>. The
  environment of one invocation gives the value of every call the handler can
  make: \<^verbatim>\<open>process.cwd()\<close> (which throws when the directory is gone),
  \<^verbatim>\<open>existsSync\<close> (which never throws), \<^verbatim>\<open>statSync(p).isFile()\<close>,
  \<^verbatim>\<open>readFileSync(p, 'utf-8')\<close> and the clock read by
  \<^verbatim>\<open>new Date().toISOString()\<close>. A file removed between the existence check and
  the read is an environment where \<open>existsSync\<close> holds and \<open>readFileSync\<close>
  throws.
\<close>

datatype errcode = ENOENT | EACCES | OtherCode

record env =
  cwd :: "errcode + jstring"
  existsSync :: "jstring \<Rightarrow> bool"
  statSync_isFile :: "jstring \<Rightarrow> errcode + bool"
  readFileSync :: "jstring \<Rightarrow> errcode + jstring"
  now_iso :: jstring

datatype fs_op = Exists jstring | Stat jstring | Read jstring

record error_json =
  json_error :: bool
  json_code :: nat
  json_message :: jstring
  json_timestamp :: jstring

datatype body = Send jstring | SendJson error_json

record response =
  status :: nat
  headers :: "(jstring \<times> jstring) list"
  body :: body

text \<open>The outcome of an invocation: the response sent and the filesystem calls
  made, in order.\<close>

record outcome =
  resp :: response
  fs_log :: "fs_op list"


section \<open>Texts\<close>

text \<open>The fixed texts of the source. Chinese text is given by its code units.\<close>

text \<open>"invalid domain: "\<close>

definition msg_invalid_domain :: jstring where
  \<open>msg_invalid_domain =
     [0x65E0, 0x6548, 0x57DF, 0x540D] @
     str '': ''\<close>

text \<open>"illegal request"\<close>

definition msg_illegal_request :: jstring where
  \<open>msg_illegal_request =
     [0x975E, 0x6CD5, 0x8BF7, 0x6C42]\<close>

text \<open>"illegal path access"\<close>

definition msg_illegal_path :: jstring where
  \<open>msg_illegal_path =
     [0x975E, 0x6CD5, 0x8DEF, 0x5F84, 0x8BBF, 0x95EE]\<close>

text \<open>"the page of domain "host" has not been created yet", before the host\<close>

definition msg_not_created_pre :: jstring where
  \<open>msg_not_created_pre =
     [0x57DF, 0x540D] @
     str '' "''\<close>

text \<open>... and after the host\<close>

definition msg_not_created_post :: jstring where
  \<open>msg_not_created_post =
     str ''" '' @
     [0x7684, 0x9875, 0x9762, 0x5C1A, 0x672A, 0x521B, 0x5EFA]\<close>

text \<open>"wrong resource type"\<close>

definition msg_wrong_type :: jstring where
  \<open>msg_wrong_type =
     [0x8D44, 0x6E90, 0x7C7B, 0x578B, 0x9519, 0x8BEF]\<close>

text \<open>"the requested resource does not exist"\<close>

definition msg_resource_missing :: jstring where
  \<open>msg_resource_missing =
     [0x8BF7, 0x6C42, 0x7684, 0x8D44, 0x6E90, 0x4E0D, 0x5B58, 0x5728]\<close>

text \<open>"no access permission"\<close>

definition msg_no_permission :: jstring where
  \<open>msg_no_permission =
     [0x6CA1, 0x6709, 0x8BBF, 0x95EE, 0x6743, 0x9650]\<close>

text \<open>"internal server error"\<close>

definition msg_internal_error :: jstring where
  \<open>msg_internal_error =
     [0x670D, 0x52A1, 0x5668, 0x5185, 0x90E8, 0x9519, 0x8BEF]\<close>

text \<open>"cannot read page content"\<close>

definition msg_cannot_read :: jstring where
  \<open>msg_cannot_read =
     [0x65E0, 0x6CD5, 0x8BFB, 0x53D6, 0x9875, 0x9762, 0x5185, 0x5BB9]\<close>

text \<open>"unknown domain"\<close>

definition unknown_domain :: jstring where
  \<open>unknown_domain =
     [0x672A, 0x77E5, 0x57DF, 0x540D]\<close>

text \<open>Second variant: "invalid domain request."\<close>

definition msg2_invalid_request :: jstring where
  \<open>msg2_invalid_request =
     [0x65E0, 0x6548, 0x7684, 0x57DF, 0x540D, 0x8BF7, 0x6C42, 0x3002]\<close>

text \<open>Second variant: "internal server error, cannot read the page."\<close>

definition msg2_cannot_read :: jstring where
  \<open>msg2_cannot_read =
     [0x670D, 0x52A1, 0x5668, 0x5185, 0x90E8, 0x9519, 0x8BEF, 0xFF0C, 0x65E0, 0x6CD5, 0x8BFB, 0x53D6, 0x9875, 0x9762, 0x3002]\<close>

text \<open>Second variant: "sorry, the display page of domain "host" has not been created yet.", before the host\<close>

definition msg2_not_created_pre :: jstring where
  \<open>msg2_not_created_pre =
     [0x62B1, 0x6B49, 0xFF0C, 0x57DF, 0x540D] @
     str '' "''\<close>

text \<open>... and after the host\<close>

definition msg2_not_created_post :: jstring where
  \<open>msg2_not_created_post =
     str ''" '' @
     [0x7684, 0x5C55, 0x793A, 0x9875, 0x9762, 0x5C1A, 0x672A, 0x521B, 0x5EFA, 0x3002]\<close>

text \<open>The 404 page of send404 (lines 106-141): the template up to the message\<close>

definition page_head :: jstring where
  \<open>page_head =
     str ''\<newline>'' @
     str ''<!DOCTYPE html>\<newline>'' @
     str ''<html lang="zh-CN">\<newline>'' @
     str ''<head>\<newline>'' @
     str ''    <meta charset="UTF-8">\<newline>'' @
     str ''    <meta name="viewport" content="width=device-width, initial-scale=1.0">\<newline>'' @
     str ''    <title>404 - '' @
     [0x9875, 0x9762, 0x672A, 0x627E, 0x5230] @
     str ''</title>\<newline>'' @
     str ''    <style>\<newline>'' @
     str ''        body { font-family: -apple-system, BlinkMacSystemFont, 'Segoe UI', Roboto, sans-serif; \<newline>'' @
     str ''               background: linear-gradient(135deg, #667eea 0%, #764ba2 100%);\<newline>'' @
     str ''               color: white; text-align: center; padding: 60px 20px; min-height: 100vh; }\<newline>'' @
     str ''        .container { max-width: 600px; margin: 0 auto; }\<newline>'' @
     str ''        h1 { font-size: 120px; margin: 0; opacity: 0.9; }\<newline>'' @
     str ''        h2 { font-size: 28px; margin: 20px 0; }\<newline>'' @
     str ''        p { font-size: 18px; margin-bottom: 30px; opacity: 0.8; }\<newline>'' @
     str ''        .btn { display: inline-block; background: white; color: #764ba2; \<newline>'' @
     str ''               padding: 12px 30px; border-radius: 50px; text-decoration: none; \<newline>'' @
     str ''               font-weight: bold; margin: 10px; transition: transform 0.3s; }\<newline>'' @
     str ''        .btn:hover { transform: translateY(-3px); }\<newline>'' @
     str ''        .domain { background: rgba(255,255,255,0.1); padding: 10px 20px; \<newline>'' @
     str ''                  border-radius: 10px; margin: 20px 0; font-family: monospace; }\<newline>'' @
     str ''    </style>\<newline>'' @
     str ''</head>\<newline>'' @
     str ''<body>\<newline>'' @
     str ''    <div class="container">\<newline>'' @
     str ''        <h1>404</h1>\<newline>'' @
     str ''        <h2>''\<close>

text \<open>... between the message and the displayed host\<close>

definition page_mid :: jstring where
  \<open>page_mid =
     str ''</h2>\<newline>'' @
     str ''        <p>'' @
     [0x60A8, 0x8BBF, 0x95EE, 0x7684, 0x57DF, 0x540D, 0x9875, 0x9762, 0x6682, 0x65F6, 0x65E0, 0x6CD5, 0x627E, 0x5230, 0x3002] @
     str ''</p>\<newline>'' @
     str ''        <div class="domain">''\<close>

text \<open>... and after the displayed host\<close>

definition page_tail :: jstring where
  \<open>page_tail =
     str ''</div>\<newline>'' @
     str ''        <div>\<newline>'' @
     str ''            <a href="/" class="btn">'' @
     [0x8FD4, 0x56DE, 0x9996, 0x9875] @
     str ''</a>\<newline>'' @
     str ''            <a href="https://vercel.com" class="btn" target="_blank">'' @
     [0x6280, 0x672F, 0x652F, 0x6301] @
     str ''</a>\<newline>'' @
     str ''        </div>\<newline>'' @
     str ''    </div>\<newline>'' @
     str ''</body>\<newline>'' @
     str ''</html>''\<close>


section \<open>Response helpers\<close>

text \<open>\<^verbatim>\<open>send404\<close> (lines 105-146). The page shows the message and, below it,
  \<^verbatim>\<open>res.req?.headers?.host || <unknown domain>\<close>: the \<^verbatim>\<open>host\<close> header of
  the request as it arrived.\<close>

definition host_display :: "res_sink \<Rightarrow> jstring" where
  "host_display res =
     or_default (case res_req res of None \<Rightarrow> None | Some r \<Rightarrow> host_header r) unknown_domain"

definition notFoundHtml :: "res_sink \<Rightarrow> jstring \<Rightarrow> jstring" where
  "notFoundHtml res message = page_head @ message @ page_mid @ host_display res @ page_tail"

definition send404 :: "res_sink \<Rightarrow> jstring \<Rightarrow> response" where
  "send404 res message =
     \<lparr>status = 404,
      headers = [(str ''Cache-Control'', str ''no-cache, no-store, must-revalidate''),
                 (str ''Content-Type'', str ''text/html; charset=utf-8'')],
      body = Send (notFoundHtml res message)\<rparr>"

text \<open>\<^verbatim>\<open>sendError\<close> (lines 151-159).\<close>

definition sendError :: "env \<Rightarrow> nat \<Rightarrow> jstring \<Rightarrow> response" where
  "sendError e statusCode message =
     \<lparr>status = statusCode,
      headers = [(str ''Cache-Control'', str ''no-cache'')],
      body = SendJson \<lparr>json_error = True, json_code = statusCode,
                        json_message = message, json_timestamp = now_iso e\<rparr>\<rparr>"

text \<open>\<^verbatim>\<open>sendHtml\<close> (lines 85-100) reads the file; a read that throws is
  caught here and answered with 500. The log so far is extended by the read.\<close>

definition sendHtml :: "env \<Rightarrow> jstring \<Rightarrow> nat \<Rightarrow> fs_op list \<Rightarrow> outcome" where
  "sendHtml e filePath statusCode log =
     \<lparr>resp =
        (case readFileSync e filePath of
           Inr content \<Rightarrow>
             \<lparr>status = statusCode,
              headers = [(str ''Cache-Control'', str ''public, max-age=3600, stale-while-revalidate=7200''),
                         (str ''Content-Type'', str ''text/html; charset=utf-8''),
                         (str ''X-Powered-By'', str ''Vercel-Domain-Router/1.0'')],
              body = Send content\<rparr>
         | Inl readError \<Rightarrow> sendError e 500 msg_cannot_read),
      fs_log = log @ [Read filePath]\<rparr>"


section \<open>The handler, first variant (lines 6-78)\<close>

definition rawHost :: "request \<Rightarrow> jstring" where
  "rawHost req = or_default (js_or (x_forwarded_host req) (host_header req)) []"

text \<open>Line 10. \<open>js_split\<close> never returns the empty list, so its head is
  element 0 of the array.\<close>

definition clean_host :: "jstring \<Rightarrow> jstring" where
  "clean_host raw = strip_www (hd (js_split ch_colon raw))"

text \<open>The \<^verbatim>\<open>try\<close> block (lines 27-65). \<open>Inl\<close> is an exception thrown inside
  it, with the calls made before; \<open>Inr\<close> is a \<^verbatim>\<open>return\<close>.\<close>

definition try_block ::
  "env \<Rightarrow> res_sink \<Rightarrow> request \<Rightarrow> jstring \<Rightarrow> (errcode \<times> fs_op list) + outcome" where
  "try_block e res req host =
     (case cwd e of
        Inl err \<Rightarrow> Inl (err, [])
      | Inr wd \<Rightarrow>
          let siteDir = path_join [wd, host];
              indexPath = path_join [siteDir, index_html];
              normalizedPath = path_normalize indexPath
          in if \<not> prefix wd normalizedPath then
               Inr \<lparr>resp = send404 res msg_illegal_path, fs_log = []\<rparr>
             else if \<not> existsSync e normalizedPath then
               (let rootIndexPath = path_join [wd, index_html]
                in if existsSync e rootIndexPath \<and> url req = [ch_slash] then
                     Inr (sendHtml e rootIndexPath 200
                            [Exists normalizedPath, Exists rootIndexPath])
                   else
                     Inr \<lparr>resp = send404 res (msg_not_created_pre @ host @ msg_not_created_post),
                          fs_log = [Exists normalizedPath, Exists rootIndexPath]\<rparr>)
             else
               (case statSync_isFile e normalizedPath of
                  Inl err \<Rightarrow> Inl (err, [Exists normalizedPath, Stat normalizedPath])
                | Inr isFile \<Rightarrow>
                    if \<not> isFile then
                      Inr \<lparr>resp = send404 res msg_wrong_type,
                           fs_log = [Exists normalizedPath, Stat normalizedPath]\<rparr>
                    else
                      Inr (sendHtml e normalizedPath 200
                             [Exists normalizedPath, Stat normalizedPath])))"

text \<open>The \<^verbatim>\<open>catch\<close> block (lines 66-77).\<close>

definition catch_block :: "env \<Rightarrow> res_sink \<Rightarrow> errcode \<Rightarrow> response" where
  "catch_block e res err =
     (case err of
        ENOENT \<Rightarrow> send404 res msg_resource_missing
      | EACCES \<Rightarrow> sendError e 403 msg_no_permission
      | OtherCode \<Rightarrow> sendError e 500 msg_internal_error)"

text \<open>The handler. \<open>Inl\<close> would be an exception that leaves the handler.\<close>

definition handler :: "env \<Rightarrow> res_sink \<Rightarrow> request \<Rightarrow> errcode + outcome" where
  "handler e res req =
     (let host = clean_host (rawHost req)
      in if host = [] \<or> \<not> rx_test host_rx host then
           Inr \<lparr>resp = send404 res (msg_invalid_domain @ host), fs_log = []\<rparr>
         else if js_includes host dotdot \<or> js_includes host [ch_slash]
                 \<or> js_includes host [ch_backslash] then
           Inr \<lparr>resp = send404 res msg_illegal_request, fs_log = []\<rparr>
         else
           (case try_block e res req host of
              Inr out \<Rightarrow> Inr out
            | Inl (err, log) \<Rightarrow> Inr \<lparr>resp = catch_block e res err, fs_log = log\<rparr>))"


section \<open>The handler, second variant (lines 164-194)\<close>

text \<open>Line 166 passes the \<^emph>\<open>string\<close> \<^verbatim>\<open>'^www\.'\<close> to \<^verbatim>\<open>replace\<close>: the
  five characters \<^verbatim>\<open>^www.\<close> are looked for literally. The port is not cut
  off, and \<^verbatim>\<open>process.cwd()\<close> on line 177 is outside any \<^verbatim>\<open>try\<close>.\<close>

definition host_v2 :: "request \<Rightarrow> jstring" where
  "host_v2 req = js_replace_str (str ''^www.'') [] (rawHost req)"

definition handler_v2 :: "env \<Rightarrow> request \<Rightarrow> errcode + outcome" where
  "handler_v2 e req =
     (let host = host_v2 req
      in if host = [] \<or> \<not> rx_test host_rx2 host then
           Inr \<lparr>resp = \<lparr>status = 400, headers = [], body = Send msg2_invalid_request\<rparr>,
                fs_log = []\<rparr>
         else
           (case cwd e of
              Inl err \<Rightarrow> Inl err
            | Inr wd \<Rightarrow>
                let filePath = path_join [wd, host, index_html]
                in if existsSync e filePath then
                     Inr \<lparr>resp =
                            (case readFileSync e filePath of
                               Inr htmlContent \<Rightarrow>
                                 \<lparr>status = 200,
                                  headers = [(str ''Content-Type'', str ''text/html; charset=utf-8'')],
                                  body = Send htmlContent\<rparr>
                             | Inl err \<Rightarrow>
                                 \<lparr>status = 500, headers = [], body = Send msg2_cannot_read\<rparr>),
                          fs_log = [Exists filePath, Read filePath]\<rparr>
                   else
                     Inr \<lparr>resp = \<lparr>status = 404, headers = [],
                                  body = Send (msg2_not_created_pre @ host @ msg2_not_created_post)\<rparr>,
                          fs_log = [Exists filePath]\<rparr>))"


section \<open>Notions used in the statements\<close>

text \<open>A path segment that \<^verbatim>\<open>normalize\<close> keeps as it is.\<close>

definition clean_seg :: "jstring \<Rightarrow> bool" where
  "clean_seg s = (s \<noteq> [] \<and> s \<noteq> [ch_dot] \<and> s \<noteq> dotdot \<and> ch_slash \<notin> set s)"

text \<open>What \<^verbatim>\<open>process.cwd()\<close> returns on POSIX: an absolute path in normal
  form (no empty, \<^verbatim>\<open>.\<close> or \<^verbatim>\<open>..\<close> component).\<close>

definition valid_cwd :: "jstring \<Rightarrow> bool" where
  "valid_cwd wd = (wd \<noteq> [] \<and> hd wd = ch_slash \<and> path_normalize wd = wd)"

text \<open>The working directory followed by a slash, unless it ends in one (the
  root directory does).\<close>

definition with_slash :: "jstring \<Rightarrow> jstring" where
  "with_slash wd = (if wd \<noteq> [] \<and> last wd = ch_slash then wd else wd @ [ch_slash])"

text \<open>A host that gets past both guards of the first variant (lines 15 and 21).\<close>

definition accepted :: "jstring \<Rightarrow> bool" where
  "accepted host =
     (host \<noteq> [] \<and> rx_test host_rx host \<and> \<not> js_includes host dotdot
        \<and> \<not> js_includes host [ch_slash] \<and> \<not> js_includes host [ch_backslash])"

text \<open>Lower-casing of ASCII letters, to state that matching ignores case; the
  handler itself never applies it.\<close>

definition ascii_lower :: "cu \<Rightarrow> cu" where
  "ascii_lower c = (if is_upper c then c + 0x20 else c)"

text \<open>Every character class of a pattern gives the same answer on \<open>c\<close> and
  \<open>f c\<close>.\<close>

fun cls_inv :: "(cu \<Rightarrow> cu) \<Rightarrow> rx \<Rightarrow> bool" where
  "cls_inv f Nul = True"
| "cls_inv f Eps = True"
| "cls_inv f (Cls p) = (\<forall>c. p (f c) = p c)"
| "cls_inv f (Alt a b) = (cls_inv f a \<and> cls_inv f b)"
| "cls_inv f (Cat a b) = (cls_inv f a \<and> cls_inv f b)"
| "cls_inv f (Star a) = cls_inv f a"


text \<open>Sample inputs: a deployment at \<^verbatim>\<open>/var/task\<close> that holds exactly one
  regular file, and a request that carries only a \<^verbatim>\<open>host\<close> header.\<close>

definition demo_env :: "jstring \<Rightarrow> jstring \<Rightarrow> env" where
  "demo_env file content =
     \<lparr>cwd = Inr (str ''/var/task''),
      existsSync = (\<lambda>p. p = file),
      statSync_isFile = (\<lambda>p. if p = file then Inr True else Inl ENOENT),
      readFileSync = (\<lambda>p. if p = file then Inr content else Inl ENOENT),
      now_iso = str ''2024-01-01T00:00:00.000Z''\<rparr>"

definition demo_req :: "jstring \<Rightarrow> jstring \<Rightarrow> request" where
  "demo_req h u = \<lparr>x_forwarded_host = None, host_header = Some h, url = u\<rparr>"


section \<open>The matcher decides the language\<close>

lemma nullable_lang: "nullable r \<longleftrightarrow> [] \<in> lang r"
  by (induction r) (auto intro: star.intros)

lemma star_cons_split:
  assumes "x \<in> star A" and "x = c # w"
  shows "\<exists>u v. w = u @ v \<and> c # u \<in> A \<and> v \<in> star A"
  using assms
proof (induction arbitrary: w rule: star.induct)
  case star_empty
  then show ?case by simp
next
  case (star_more u v)
  show ?case
  proof (cases u)
    case Nil
    with star_more show ?thesis by simp
  next
    case (Cons a u')
    with star_more.prems have "a = c" and "w = u' @ v" by simp_all
    with star_more.hyps Cons show ?thesis by blast
  qed
qed

lemma star_cons_iff:
  "c # w \<in> star A \<longleftrightarrow> (\<exists>u v. w = u @ v \<and> c # u \<in> A \<and> v \<in> star A)"
proof
  assume "c # w \<in> star A"
  then show "\<exists>u v. w = u @ v \<and> c # u \<in> A \<and> v \<in> star A"
    by (rule star_cons_split) simp
next
  assume "\<exists>u v. w = u @ v \<and> c # u \<in> A \<and> v \<in> star A"
  then obtain u v where "w = u @ v" "c # u \<in> A" "v \<in> star A" by blast
  then have "(c # u) @ v \<in> star A" by (intro star_more)
  with \<open>w = u @ v\<close> show "c # w \<in> star A" by simp
qed

lemma lang_deriv: "w \<in> lang (deriv c r) \<longleftrightarrow> c # w \<in> lang r"
proof (induction r arbitrary: w)
  case (Cat a b)
  show ?case
  proof (cases "nullable a")
    case True
    then have "[] \<in> lang a" by (simp add: nullable_lang)
    show ?thesis
    proof
      assume "w \<in> lang (deriv c (Cat a b))"
      with True consider
        (l) u v where "w = u @ v" "u \<in> lang (deriv c a)" "v \<in> lang b"
        | (r) "w \<in> lang (deriv c b)" by auto
      then show "c # w \<in> lang (Cat a b)"
      proof cases
        case l
        then have "c # u \<in> lang a" using Cat.IH(1) by simp
        with l have "(c # u) @ v \<in> lang (Cat a b)" by (simp del: append_Cons) blast
        with l show ?thesis by simp
      next
        case r
        then have "c # w \<in> lang b" using Cat.IH(2) by simp
        with \<open>[] \<in> lang a\<close> have "[] @ (c # w) \<in> lang (Cat a b)" by (simp del: append_Nil) blast
        then show ?thesis by simp
      qed
    next
      assume "c # w \<in> lang (Cat a b)"
      then obtain u v where uv: "c # w = u @ v" "u \<in> lang a" "v \<in> lang b" by auto
      show "w \<in> lang (deriv c (Cat a b))"
      proof (cases u)
        case Nil
        with uv have "w \<in> lang (deriv c b)" using Cat.IH(2) by simp
        with True show ?thesis by simp
      next
        case (Cons x u')
        with uv have "x = c" "w = u' @ v" by simp_all
        with uv Cons have "u' \<in> lang (deriv c a)" using Cat.IH(1) by simp
        with True \<open>w = u' @ v\<close> uv show ?thesis by auto
      qed
    qed
  next
    case False
    then have ne: "[] \<notin> lang a" by (simp add: nullable_lang)
    show ?thesis
    proof
      assume "w \<in> lang (deriv c (Cat a b))"
      with False obtain u v where l: "w = u @ v" "u \<in> lang (deriv c a)" "v \<in> lang b" by auto
      then have "c # u \<in> lang a" using Cat.IH(1) by simp
      with l have "(c # u) @ v \<in> lang (Cat a b)" by (simp del: append_Cons) blast
      with l show "c # w \<in> lang (Cat a b)" by simp
    next
      assume "c # w \<in> lang (Cat a b)"
      then obtain u v where uv: "c # w = u @ v" "u \<in> lang a" "v \<in> lang b" by auto
      with ne obtain u' where "u = c # u'" "w = u' @ v" by (cases u) auto
      with uv have "u' \<in> lang (deriv c a)" using Cat.IH(1) by simp
      with False \<open>w = u' @ v\<close> uv show "w \<in> lang (deriv c (Cat a b))" by auto
    qed
  qed
next
  case (Star a)
  show ?case
    by (auto simp: star_cons_iff Star.IH)
qed auto

lemma lang_derivs: "w \<in> lang (derivs r s) \<longleftrightarrow> s @ w \<in> lang r"
  by (induction s arbitrary: r) (simp_all add: lang_deriv)

lemma rx_test_lang: "rx_test r s \<longleftrightarrow> s \<in> lang r"
  by (simp add: rx_test_def nullable_lang lang_derivs)

lemma star_cls: "w \<in> star {[c] |c. p c} \<longleftrightarrow> list_all p w"
proof
  assume "w \<in> star {[c] |c. p c}"
  then show "list_all p w" by (induction rule: star.induct) auto
next
  assume "list_all p w"
  then show "w \<in> star {[c] |c. p c}"
  proof (induction w)
    case Nil
    show ?case by (rule star_empty)
  next
    case (Cons a w)
    then have "[a] @ w \<in> star {[c] |c. p c}" by (intro star_more) auto
    then show ?case by simp
  qed
qed

lemma host_rx_iff:
  "rx_test host_rx s \<longleftrightarrow>
     (\<exists>c m t. s = c # m @ ch_dot # t \<and> cls_az09 c \<and> list_all cls_az09dh m
        \<and> list_all cls_az t \<and> 2 \<le> length t)"
proof
  assume "rx_test host_rx s"
  then obtain c m a b t where "s = [c] @ m @ [ch_dot] @ [a] @ [b] @ t"
    "cls_az09 c" "list_all cls_az09dh m" "cls_az a" "cls_az b" "list_all cls_az t"
    by (auto simp: rx_test_lang host_rx_def star_cls)
  then have "s = c # m @ ch_dot # (a # b # t) \<and> cls_az09 c \<and> list_all cls_az09dh m
      \<and> list_all cls_az (a # b # t) \<and> 2 \<le> length (a # b # t)" by simp
  then show "\<exists>c m t. s = c # m @ ch_dot # t \<and> cls_az09 c \<and> list_all cls_az09dh m
        \<and> list_all cls_az t \<and> 2 \<le> length t" by blast
next
  assume "\<exists>c m t. s = c # m @ ch_dot # t \<and> cls_az09 c \<and> list_all cls_az09dh m
        \<and> list_all cls_az t \<and> 2 \<le> length t"
  then obtain c m t where s: "s = c # m @ ch_dot # t" and c: "cls_az09 c" and m: "list_all cls_az09dh m"
    and t: "list_all cls_az t" "2 \<le> length t" by blast
  from t obtain a b t' where t': "t = a # b # t'" by (cases t; cases "tl t") auto
  have "[c] @ (m @ ([ch_dot] @ ([a] @ ([b] @ t')))) \<in> lang host_rx"
    unfolding host_rx_def lang.simps using c m t t'
    by (intro CollectI exI conjI refl) (auto simp: star_cls)
  then show "rx_test host_rx s" using s t' by (simp add: rx_test_lang)
qed


section \<open>Splitting, joining and normalizing paths\<close>

subsection \<open>split\<close>

lemma js_split_nonempty: "js_split sep s \<noteq> []"
  by (induction s) (auto split: list.splits)

lemma js_split_no_sep: "w \<in> set (js_split sep s) \<Longrightarrow> sep \<notin> set w"
  by (induction s arbitrary: w) (auto split: list.splits if_splits)

lemma js_split_free: "sep \<notin> set s \<Longrightarrow> js_split sep s = [s]"
  by (induction s) auto

lemma js_split_append:
  "sep \<notin> set a \<Longrightarrow> js_split sep (a @ sep # b) = a # js_split sep b"
  by (induction a) auto

lemma js_split_join:
  "ws \<noteq> [] \<Longrightarrow> \<forall>w\<in>set ws. ch_slash \<notin> set w \<Longrightarrow> js_split ch_slash (join_segments ws) = ws"
proof (induction ws rule: join_segments.induct)
  case 1
  then show ?case by simp
next
  case (2 s)
  then show ?case by (simp add: js_split_free)
next
  case (3 s t ss)
  then show ?case by (simp add: js_split_append)
qed

lemma join_segments_snoc:
  "R \<noteq> [] \<Longrightarrow> join_segments (R @ [h]) = join_segments R @ ch_slash # h"
  by (induction R rule: join_segments.induct) auto

lemma join_segments_nonempty:
  "R \<noteq> [] \<Longrightarrow> list_all clean_seg R \<Longrightarrow> join_segments R \<noteq> []"
  by (induction R rule: join_segments.induct) (auto simp: clean_seg_def)

lemma clean_seg_last: "clean_seg s \<Longrightarrow> last s \<noteq> ch_slash"
proof
  assume c: "clean_seg s" and l: "last s = ch_slash"
  from c have "s \<noteq> []" by (simp add: clean_seg_def)
  then have "last s \<in> set s" by (rule last_in_set)
  with l c show False by (simp add: clean_seg_def)
qed

lemma join_segments_last:
  "R \<noteq> [] \<Longrightarrow> list_all clean_seg R \<Longrightarrow> last (ch_slash # join_segments R) \<noteq> ch_slash"
proof (induction R rule: join_segments.induct)
  case 1
  then show ?case by simp
next
  case (2 s)
  then show ?case by (simp add: clean_seg_last) (simp add: clean_seg_def)
next
  case (3 s t ss)
  then have "join_segments (t # ss) \<noteq> []" by (simp add: join_segments_nonempty)
  with 3 show ?case by simp
qed

lemma join_split: "join_segments (js_split ch_slash s) = s"
proof (induction s)
  case Nil
  show ?case by simp
next
  case (Cons c s)
  obtain w ws where ws: "js_split ch_slash s = w # ws"
    using js_split_nonempty [of ch_slash s] by (cases "js_split ch_slash s") auto
  with Cons show ?case by (cases ws) auto
qed

subsection \<open>normalizeString\<close>

lemma norm_step_clean:
  "clean_seg seg \<Longrightarrow> norm_step a res seg = res @ [seg]"
  by (simp add: norm_step_def clean_seg_def)

lemma norm_step_empty: "norm_step a res [] = res"
  by (simp add: norm_step_def)

lemma foldl_norm_step_clean:
  "list_all clean_seg ws \<Longrightarrow> foldl (norm_step a) acc ws = acc @ ws"
  by (induction ws arbitrary: acc) (simp_all add: norm_step_clean)

lemma norm_step_keeps_clean:
  "list_all clean_seg res \<Longrightarrow> ch_slash \<notin> set seg \<Longrightarrow> list_all clean_seg (norm_step False res seg)"
  by (auto simp: norm_step_def clean_seg_def list_all_iff dest: in_set_butlastD)

lemma foldl_norm_step_keeps_clean:
  "list_all clean_seg acc \<Longrightarrow> \<forall>w\<in>set ws. ch_slash \<notin> set w \<Longrightarrow>
     list_all clean_seg (foldl (norm_step False) acc ws)"
  by (induction ws arbitrary: acc) (simp_all add: norm_step_keeps_clean)

lemma normalizeString_clean: "list_all clean_seg (normalizeString path False)"
  unfolding normalizeString_def
  by (rule foldl_norm_step_keeps_clean) (auto dest: js_split_no_sep)

lemma normalizeString_abs:
  assumes "W \<noteq> []" and "\<forall>w\<in>set W. ch_slash \<notin> set w"
  shows "normalizeString (ch_slash # join_segments W) a = foldl (norm_step a) [] W"
proof -
  have "js_split ch_slash (ch_slash # join_segments W) = [] # W"
    using assms by (simp add: js_split_join)
  then show ?thesis by (simp add: normalizeString_def norm_step_empty)
qed

subsection \<open>normalize\<close>

lemma path_normalize_abs:
  assumes "list_all clean_seg Q" and "Q \<noteq> []" and "normalizeString (ch_slash # p) False = Q"
    and "last (ch_slash # p) \<noteq> ch_slash"
  shows "path_normalize (ch_slash # p) = ch_slash # join_segments Q"
  using assms by (simp add: path_normalize_def Let_def join_segments_nonempty)

lemma path_normalize_clean:
  assumes "list_all clean_seg Q" and "Q \<noteq> []"
  shows "path_normalize (ch_slash # join_segments Q) = ch_slash # join_segments Q"
proof (rule path_normalize_abs [OF assms])
  have "\<forall>w\<in>set Q. ch_slash \<notin> set w" using assms by (auto simp: list_all_iff clean_seg_def)
  then show "normalizeString (ch_slash # join_segments Q) False = Q"
    using assms by (simp add: normalizeString_abs foldl_norm_step_clean)
  show "last (ch_slash # join_segments Q) \<noteq> ch_slash"
    by (rule join_segments_last [OF assms(2) assms(1)])
qed

lemma path_normalize_extend:
  assumes abs: "wd \<noteq> []" "hd wd = ch_slash" and h: "clean_seg h"
  shows "path_normalize (wd @ ch_slash # h) = ch_slash # join_segments (normalizeString wd False @ [h])"
proof -
  define W where "W = js_split ch_slash (tl wd)"
  define R where "R = normalizeString wd False"
  have W: "W \<noteq> []" "\<forall>w\<in>set W. ch_slash \<notin> set w"
    by (auto simp: W_def js_split_nonempty dest: js_split_no_sep)
  have wd: "wd = ch_slash # join_segments W"
    using abs by (cases wd) (auto simp: W_def join_split)
  have R: "R = foldl (norm_step False) [] W"
    unfolding R_def by (subst wd) (simp add: normalizeString_abs W)
  have Rc: "list_all clean_seg R" by (simp add: R_def normalizeString_clean)
  have h': "ch_slash \<notin> set h" "h \<noteq> []" using h by (auto simp: clean_seg_def)
  have ext: "wd @ ch_slash # h = ch_slash # join_segments (W @ [h])"
    by (subst wd) (simp add: join_segments_snoc W)
  have "normalizeString (ch_slash # join_segments (W @ [h])) False = foldl (norm_step False) [] (W @ [h])"
    using W h' by (intro normalizeString_abs) auto
  also have "\<dots> = R @ [h]" by (simp add: R norm_step_clean h)
  finally have ns: "normalizeString (ch_slash # join_segments (W @ [h])) False = R @ [h]" .
  have lst: "last (ch_slash # join_segments (W @ [h])) \<noteq> ch_slash"
    using h' W clean_seg_last [OF h] by (simp add: join_segments_snoc)
  have "path_normalize (ch_slash # join_segments (W @ [h])) = ch_slash # join_segments (R @ [h])"
    by (rule path_normalize_abs [OF _ _ ns lst]) (simp_all add: Rc h)
  then show ?thesis by (simp add: ext R_def)
qed

lemma valid_cwd_form:
  assumes "valid_cwd wd"
  shows "with_slash wd =
     (if normalizeString wd False = [] then [ch_slash]
      else ch_slash # join_segments (normalizeString wd False) @ [ch_slash])"
proof -
  define R where "R = normalizeString wd False"
  have Rc: "list_all clean_seg R" by (simp add: R_def normalizeString_clean)
  from assms have abs: "wd \<noteq> []" "hd wd = ch_slash" and n: "path_normalize wd = wd"
    by (simp_all add: valid_cwd_def)
  have "with_slash wd = (if R = [] then [ch_slash] else ch_slash # join_segments R @ [ch_slash])"
  proof (cases "R = []")
    case True
    then have "path_normalize wd = [ch_slash]"
      using abs by (simp add: path_normalize_def Let_def R_def)
    with n have "wd = [ch_slash]" by simp
    with True show ?thesis by (simp add: with_slash_def)
  next
    case False
    then have ne: "join_segments R \<noteq> []" using Rc by (simp add: join_segments_nonempty)
    have "path_normalize wd = ch_slash # join_segments R @ (if last wd = ch_slash then [ch_slash] else [])"
      using abs ne by (simp add: path_normalize_def Let_def R_def)
    with n have eq: "wd = ch_slash # join_segments R @ (if last wd = ch_slash then [ch_slash] else [])"
      by simp
    show ?thesis
    proof (cases "last wd = ch_slash")
      case True
      with eq have "wd = ch_slash # join_segments R @ [ch_slash]" by simp
      with True False abs show ?thesis by (simp add: with_slash_def)
    next
      case nt: False
      with eq have "wd = ch_slash # join_segments R" by simp
      with nt False abs show ?thesis by (simp add: with_slash_def)
    qed
  qed
  then show ?thesis by (simp add: R_def)
qed

lemma path_join2:
  "a \<noteq> [] \<Longrightarrow> b \<noteq> [] \<Longrightarrow> path_join [a, b] = path_normalize (a @ ch_slash # b)"
  by (simp add: path_join_def)

lemma clean_index_html: "clean_seg index_html"
  by (simp add: clean_seg_def index_html_def str_def ch_dot_def dotdot_def ch_slash_def)

lemma resolved_path:
  assumes wd: "valid_cwd wd" and h: "clean_seg h"
  shows "path_normalize (path_join [path_join [wd, h], index_html])
           = with_slash wd @ h @ ch_slash # index_html"
proof -
  define R where "R = normalizeString wd False"
  have Rc: "list_all clean_seg R" by (simp add: R_def normalizeString_clean)
  from wd have abs: "wd \<noteq> []" "hd wd = ch_slash" by (simp_all add: valid_cwd_def)
  have h': "h \<noteq> []" using h by (simp add: clean_seg_def)
  have i': "index_html \<noteq> []" using clean_index_html by (simp add: clean_seg_def)
  have siteDir: "path_join [wd, h] = ch_slash # join_segments (R @ [h])"
    using abs h' by (simp add: path_join2 path_normalize_extend [OF abs h] R_def)
  have c2: "list_all clean_seg (R @ [h])" using Rc h by simp
  have "\<forall>w\<in>set (R @ [h]). ch_slash \<notin> set w"
    using c2 by (auto simp: list_all_iff clean_seg_def)
  then have ns2: "normalizeString (ch_slash # join_segments (R @ [h])) False = R @ [h]"
    using foldl_norm_step_clean [OF c2, of False "[]"] by (simp add: normalizeString_abs)
  have "path_normalize ((ch_slash # join_segments (R @ [h])) @ ch_slash # index_html)
          = ch_slash # join_segments (normalizeString (ch_slash # join_segments (R @ [h])) False @ [index_html])"
    by (rule path_normalize_extend) (simp_all add: clean_index_html)
  then have "path_join [ch_slash # join_segments (R @ [h]), index_html]
          = ch_slash # join_segments (R @ [h, index_html])"
    using i' by (simp add: path_join2 ns2)
  then have indexPath: "path_join [path_join [wd, h], index_html]
          = ch_slash # join_segments (R @ [h, index_html])"
    by (simp only: siteDir)
  have "path_normalize (ch_slash # join_segments (R @ [h, index_html]))
          = ch_slash # join_segments (R @ [h, index_html])"
    by (rule path_normalize_clean) (simp_all add: Rc h clean_index_html)
  then have "path_normalize (path_join [path_join [wd, h], index_html])
          = ch_slash # join_segments (R @ [h, index_html])"
    by (simp add: indexPath)
  also have "\<dots> = with_slash wd @ h @ ch_slash # index_html"
  proof (cases "R = []")
    case True
    then show ?thesis using valid_cwd_form [OF wd] by (simp add: R_def)
  next
    case False
    have "join_segments (R @ [h, index_html]) = join_segments ((R @ [h]) @ [index_html])" by simp
    also have "\<dots> = join_segments (R @ [h]) @ ch_slash # index_html"
      by (rule join_segments_snoc) simp
    also have "\<dots> = (join_segments R @ ch_slash # h) @ ch_slash # index_html"
      using False by (simp add: join_segments_snoc)
    finally show ?thesis using False valid_cwd_form [OF wd] by (simp add: R_def)
  qed
  finally show ?thesis .
qed

lemma prefix_with_slash: "prefix wd (with_slash wd @ rest)"
  by (simp add: with_slash_def)

lemma root_index_path:
  assumes wd: "valid_cwd wd"
  shows "path_join [wd, index_html] = with_slash wd @ index_html"
proof -
  define R where "R = normalizeString wd False"
  have Rc: "list_all clean_seg R" by (simp add: R_def normalizeString_clean)
  from wd have abs: "wd \<noteq> []" "hd wd = ch_slash" by (simp_all add: valid_cwd_def)
  have i': "index_html \<noteq> []" using clean_index_html by (simp add: clean_seg_def)
  have "path_join [wd, index_html] = ch_slash # join_segments (R @ [index_html])"
    using abs i' by (simp add: path_join2 path_normalize_extend [OF abs clean_index_html] R_def)
  also have "\<dots> = with_slash wd @ index_html"
    using valid_cwd_form [OF wd] by (cases "R = []") (simp_all add: R_def join_segments_snoc)
  finally show ?thesis .
qed


section \<open>Hosts accepted by the pattern\<close>

lemma js_includes_sublist: "js_includes s p \<longleftrightarrow> sublist p s"
  by (induction s) (simp_all add: sublist_Cons_right)

lemma js_includes_single: "js_includes s [c] \<longleftrightarrow> c \<in> set s"
  by (induction s) auto

lemma cls_az09dh_not_slash: "cls_az09dh c \<Longrightarrow> c \<noteq> ch_slash \<and> c \<noteq> ch_backslash"
  by (auto simp: cls_az09dh_def is_lower_def is_upper_def is_digit_def ch_dot_def ch_hyphen_def
      ch_slash_def ch_backslash_def)

lemma cls_az09_sub: "cls_az09 c \<Longrightarrow> cls_az09dh c"
  by (auto simp: cls_az09_def cls_az09dh_def)

lemma cls_az_sub: "cls_az c \<Longrightarrow> cls_az09dh c"
  by (auto simp: cls_az_def cls_az09dh_def)

lemma cls_az09_not_dot: "cls_az09 c \<Longrightarrow> c \<noteq> ch_dot"
  by (auto simp: cls_az09_def is_lower_def is_upper_def is_digit_def ch_dot_def)

lemma host_rx_chars:
  assumes "rx_test host_rx h"
  shows "\<forall>c\<in>set h. cls_az09dh c"
proof -
  from assms obtain c m t where h: "h = c # m @ ch_dot # t" and c: "cls_az09 c"
    and m: "list_all cls_az09dh m" and t: "list_all cls_az t"
    by (auto simp: host_rx_iff)
  have "cls_az09dh ch_dot" by (simp add: cls_az09dh_def)
  with h c m t show ?thesis
    by (auto simp: list_all_iff cls_az09_sub cls_az_sub)
qed

lemma host_rx_first:
  assumes "rx_test host_rx h"
  shows "h \<noteq> [] \<and> cls_az09 (hd h)"
  using assms by (auto simp: host_rx_iff)

lemma host_rx_clean_seg:
  assumes "rx_test host_rx h"
  shows "clean_seg h"
proof -
  from host_rx_first [OF assms] have ne: "h \<noteq> []" and "hd h \<noteq> ch_dot"
    by (auto dest: cls_az09_not_dot)
  then have "h \<noteq> [ch_dot]" "h \<noteq> dotdot" by (auto simp: dotdot_def)
  moreover have "ch_slash \<notin> set h"
    using host_rx_chars [OF assms] cls_az09dh_not_slash by blast
  ultimately show ?thesis using ne by (simp add: clean_seg_def)
qed

lemma host_rx_no_slash:
  assumes "rx_test host_rx h"
  shows "\<not> js_includes h [ch_slash] \<and> \<not> js_includes h [ch_backslash]"
  using host_rx_chars [OF assms] cls_az09dh_not_slash by (auto simp: js_includes_single)

lemma deriv_cls_inv: "cls_inv f r \<Longrightarrow> deriv (f c) r = deriv c r"
  by (induction r) auto

lemma cls_inv_deriv: "cls_inv f r \<Longrightarrow> cls_inv f (deriv c r)"
  by (induction r) auto

lemma derivs_cls_inv: "cls_inv f r \<Longrightarrow> derivs r (map f s) = derivs r s"
  by (induction s arbitrary: r) (simp_all add: deriv_cls_inv cls_inv_deriv)

lemma upper_lower:
  assumes "is_upper c"
  shows "is_lower (c + 0x20)"
proof -
  from assms have b: "65 \<le> unat c" "unat c \<le> 90"
    by (simp_all add: is_upper_def word_le_nat_alt)
  then have "unat (c + 0x20) = unat c + 32"
    by (simp add: unat_word_ariths)
  with b show ?thesis
    by (simp add: is_lower_def word_le_nat_alt)
qed

lemma lower_classes:
  "cls_az (ascii_lower c) = cls_az c"
  "cls_az09 (ascii_lower c) = cls_az09 c"
  "cls_az09dh (ascii_lower c) = cls_az09dh c"
  "(ascii_lower c = ch_dot) = (c = ch_dot)"
  using upper_lower [of c]
  by (auto simp: ascii_lower_def cls_az_def cls_az09_def cls_az09dh_def is_upper_def is_lower_def
        is_digit_def ch_dot_def ch_hyphen_def)

lemma cls_inv_host_rx: "cls_inv ascii_lower host_rx"
  by (simp add: host_rx_def lower_classes)

lemma rx_test_lower: "rx_test host_rx (map ascii_lower s) = rx_test host_rx s"
  by (simp add: rx_test_def derivs_cls_inv cls_inv_host_rx)


section \<open>The handler on an accepted host\<close>

lemma accepted_clean_seg: "accepted host \<Longrightarrow> clean_seg host"
  by (simp add: accepted_def host_rx_clean_seg)

lemma try_block_found:
  assumes "cwd e = Inr wd" and "valid_cwd wd" and "accepted host"
    and "p = with_slash wd @ host @ ch_slash # index_html"
    and "existsSync e p"
  shows "try_block e res req host =
     (case statSync_isFile e p of
        Inl err \<Rightarrow> Inl (err, [Exists p, Stat p])
      | Inr isFile \<Rightarrow>
          if \<not> isFile then Inr \<lparr>resp = send404 res msg_wrong_type, fs_log = [Exists p, Stat p]\<rparr>
          else Inr (sendHtml e p 200 [Exists p, Stat p]))"
proof -
  have np: "path_normalize (path_join [path_join [wd, host], index_html]) = p"
    using assms by (simp add: resolved_path accepted_clean_seg)
  have "prefix wd p" using assms by (simp add: prefix_with_slash)
  then show ?thesis
    unfolding try_block_def assms(1) sum.case Let_def np using assms by simp
qed

lemma try_block_missing:
  assumes "cwd e = Inr wd" and "valid_cwd wd" and "accepted host"
    and "p = with_slash wd @ host @ ch_slash # index_html"
    and "\<not> existsSync e p" and "root = with_slash wd @ index_html"
  shows "try_block e res req host =
     (if existsSync e root \<and> url req = [ch_slash] then
        Inr (sendHtml e root 200 [Exists p, Exists root])
      else Inr \<lparr>resp = send404 res (msg_not_created_pre @ host @ msg_not_created_post),
                fs_log = [Exists p, Exists root]\<rparr>)"
proof -
  have np: "path_normalize (path_join [path_join [wd, host], index_html]) = p"
    using assms by (simp add: resolved_path accepted_clean_seg)
  have rp: "path_join [wd, index_html] = root"
    using assms by (simp add: root_index_path)
  have "prefix wd p" using assms by (simp add: prefix_with_slash)
  then show ?thesis
    unfolding try_block_def assms(1) sum.case Let_def np rp using assms by simp
qed

lemma handler_accepted:
  assumes "accepted (clean_host (rawHost req))"
  shows "handler e res req =
     (case try_block e res req (clean_host (rawHost req)) of
        Inr out \<Rightarrow> Inr out
      | Inl (err, log) \<Rightarrow> Inr \<lparr>resp = catch_block e res err, fs_log = log\<rparr>)"
  using assms by (simp add: handler_def accepted_def Let_def)


section \<open>Path containment and the served site\<close>

text \<open>
  Claim C9. For a working directory as \<^verbatim>\<open>process.cwd()\<close> returns it and a host
  that passes both the pattern and the substring blacklist, the normalized path
  \<^verbatim>\<open>normalize(join(join(cwd, host), 'index.html'))\<close> starts with the working
  directory: the guard of the "illegal path access" branch (line 34) is false, so
  that branch is never taken.
\<close>

theorem containment_guard_never_fires:
  assumes "valid_cwd wd" and "accepted host"
  shows "prefix wd (path_normalize (path_join [path_join [wd, host], index_html]))"
  using assms by (simp add: resolved_path accepted_clean_seg prefix_with_slash)

theorem containment_guard_never_fires_witness:
  "valid_cwd (str ''/var/task'') \<and> accepted (str ''example.com'')
   \<and> prefix (str ''/var/task'')
        (path_normalize (path_join [path_join [str ''/var/task'', str ''example.com''], index_html]))"
proof -
  have a: "valid_cwd (str ''/var/task'')" by code_simp
  have b: "accepted (str ''example.com'')" by code_simp
  show ?thesis using a b containment_guard_never_fires [OF a b] by simp
qed

text \<open>
  Claim C1, amended. For every host that passes the pattern and contains no
  \<^verbatim>\<open>..\<close>, whose \<^verbatim>\<open><working-directory>/<host>/index.html\<close> exists and is
  a regular file, whatever the requested URL: when the read succeeds, the handler
  answers 200 with the three headers of \<^verbatim>\<open>sendHtml\<close> and, as body, exactly the
  string that \<^verbatim>\<open>readFileSync(path, 'utf-8')\<close> returned; when the read throws,
  it answers 500 with the JSON error "cannot read page content". Either way it
  makes three filesystem calls: the existence check, the stat and the read.
\<close>

theorem site_served:
  assumes "cwd e = Inr wd" and "valid_cwd wd"
    and "clean_host (rawHost req) = host" and "accepted host"
    and "p = with_slash wd @ host @ ch_slash # index_html"
    and "existsSync e p" and "statSync_isFile e p = Inr True"
  shows "(readFileSync e p = Inr content \<longrightarrow>
            handler e res req
              = Inr \<lparr>resp = \<lparr>status = 200,
                       headers = [(str ''Cache-Control'', str ''public, max-age=3600, stale-while-revalidate=7200''),
                                  (str ''Content-Type'', str ''text/html; charset=utf-8''),
                                  (str ''X-Powered-By'', str ''Vercel-Domain-Router/1.0'')],
                       body = Send content\<rparr>,
                     fs_log = [Exists p, Stat p, Read p]\<rparr>)
       \<and> (readFileSync e p = Inl err \<longrightarrow>
            handler e res req
              = Inr \<lparr>resp = \<lparr>status = 500, headers = [(str ''Cache-Control'', str ''no-cache'')],
                       body = SendJson \<lparr>json_error = True, json_code = 500,
                                 json_message = msg_cannot_read,
                                 json_timestamp = now_iso e\<rparr>\<rparr>,
                     fs_log = [Exists p, Stat p, Read p]\<rparr>)"
proof -
  have acc: "accepted (clean_host (rawHost req))" using assms by simp
  have tb: "try_block e res req (clean_host (rawHost req))
      = Inr (sendHtml e p 200 [Exists p, Stat p])"
    using assms try_block_found [of e wd host p res req] by simp
  show ?thesis
    by (simp add: handler_accepted [OF acc] tb sendHtml_def sendError_def)
qed

theorem site_served_witness:
  "handler (demo_env (str ''/var/task/example.com/index.html'') (str ''<h1>hello</h1>''))
      \<lparr>res_req = None\<rparr> (demo_req (str ''www.example.com:443'') (str ''/about''))
    = Inr \<lparr>resp = \<lparr>status = 200,
                    headers = [(str ''Cache-Control'', str ''public, max-age=3600, stale-while-revalidate=7200''),
                                  (str ''Content-Type'', str ''text/html; charset=utf-8''),
                                  (str ''X-Powered-By'', str ''Vercel-Domain-Router/1.0'')],
                    body = Send (str ''<h1>hello</h1>'')\<rparr>,
           fs_log = [Exists (str ''/var/task/example.com/index.html''),
                     Stat (str ''/var/task/example.com/index.html''),
                     Read (str ''/var/task/example.com/index.html'')]\<rparr>
   \<and> handler ((demo_env (str ''/var/task/example.com/index.html'') (str ''<h1>hello</h1>''))
                \<lparr>readFileSync := \<lambda>p. Inl EACCES\<rparr>)
      \<lparr>res_req = None\<rparr> (demo_req (str ''www.example.com:443'') (str ''/about''))
    = Inr \<lparr>resp = \<lparr>status = 500, headers = [(str ''Cache-Control'', str ''no-cache'')],
                       body = SendJson \<lparr>json_error = True, json_code = 500,
                                 json_message = msg_cannot_read,
                                 json_timestamp = str ''2024-01-01T00:00:00.000Z''\<rparr>\<rparr>,
           fs_log = [Exists (str ''/var/task/example.com/index.html''),
                     Stat (str ''/var/task/example.com/index.html''),
                     Read (str ''/var/task/example.com/index.html'')]\<rparr>"
proof -
  let ?f = "str ''/var/task/example.com/index.html''"
  let ?e = "demo_env ?f (str ''<h1>hello</h1>'')"
  let ?e' = "?e\<lparr>readFileSync := \<lambda>p. Inl EACCES\<rparr>"
  let ?r = "demo_req (str ''www.example.com:443'') (str ''/about'')"
  let ?s = "\<lparr>res_req = None\<rparr>"
  have 2: "valid_cwd (str ''/var/task'')" by code_simp
  have 3: "clean_host (rawHost ?r) = str ''example.com''" by code_simp
  have 4: "accepted (str ''example.com'')" by code_simp
  have 5: "?f = with_slash (str ''/var/task'') @ str ''example.com'' @ ch_slash # index_html"
    by code_simp
  have a: "cwd ?e = Inr (str ''/var/task'')" "existsSync ?e ?f" "statSync_isFile ?e ?f = Inr True"
    and ar: "readFileSync ?e ?f = Inr (str ''<h1>hello</h1>'')"
    by (simp_all add: demo_env_def)
  have b: "cwd ?e' = Inr (str ''/var/task'')" "existsSync ?e' ?f"
    "statSync_isFile ?e' ?f = Inr True"
    and br: "readFileSync ?e' ?f = Inl EACCES"
    and bn: "now_iso ?e' = str ''2024-01-01T00:00:00.000Z''"
    by (simp_all add: demo_env_def)
  note t1 = site_served [OF a(1) 2 3 4 5 a(2) a(3), of "str ''<h1>hello</h1>''" ?s,
      THEN conjunct1, THEN mp, OF ar]
  note t2 = site_served [OF b(1) 2 3 4 5 b(2) b(3), of _ ?s EACCES,
      THEN conjunct2, THEN mp, OF br, unfolded bn]
  from t1 t2 show ?thesis by (rule conjI)
qed

text \<open>
  The claim as first stated asks a 200 of every host that passes the pattern and
  has an existing regular file. The host \<^verbatim>\<open>a..com\<close> passes the pattern; with
  \<^verbatim>\<open>/var/task/a..com/index.html\<close> an existing, readable regular file, the
  handler still answers with the 404 page of the blacklist branch and touches no
  file. And for \<^verbatim>\<open>example.com\<close>, whose index file exists and is a regular file
  that the process may not read, the handler answers 500.
\<close>

theorem site_served_counterexample:
  "rx_test host_rx (clean_host (rawHost (demo_req (str ''a..com'') (str ''/''))))
   \<and> existsSync (demo_env (str ''/var/task/a..com/index.html'') (str ''<h1>hello</h1>''))
        (str ''/var/task/a..com/index.html'')
   \<and> statSync_isFile (demo_env (str ''/var/task/a..com/index.html'') (str ''<h1>hello</h1>''))
        (str ''/var/task/a..com/index.html'') = Inr True
   \<and> readFileSync (demo_env (str ''/var/task/a..com/index.html'') (str ''<h1>hello</h1>''))
        (str ''/var/task/a..com/index.html'') = Inr (str ''<h1>hello</h1>'')
   \<and> handler (demo_env (str ''/var/task/a..com/index.html'') (str ''<h1>hello</h1>''))
        \<lparr>res_req = None\<rparr> (demo_req (str ''a..com'') (str ''/''))
      = Inr \<lparr>resp = \<lparr>status = 404,
                      headers = [(str ''Cache-Control'', str ''no-cache, no-store, must-revalidate''),
                                  (str ''Content-Type'', str ''text/html; charset=utf-8'')],
                      body = Send (page_head @ msg_illegal_request @ page_mid
                                    @ unknown_domain @ page_tail)\<rparr>,
             fs_log = []\<rparr>
   \<and> rx_test host_rx (clean_host (rawHost (demo_req (str ''example.com'') (str ''/''))))
   \<and> existsSync ((demo_env (str ''/var/task/example.com/index.html'') (str ''<h1>hello</h1>''))
                    \<lparr>readFileSync := \<lambda>p. Inl EACCES\<rparr>)
        (str ''/var/task/example.com/index.html'')
   \<and> statSync_isFile ((demo_env (str ''/var/task/example.com/index.html'') (str ''<h1>hello</h1>''))
                    \<lparr>readFileSync := \<lambda>p. Inl EACCES\<rparr>)
        (str ''/var/task/example.com/index.html'') = Inr True
   \<and> handler ((demo_env (str ''/var/task/example.com/index.html'') (str ''<h1>hello</h1>''))
                    \<lparr>readFileSync := \<lambda>p. Inl EACCES\<rparr>)
        \<lparr>res_req = None\<rparr> (demo_req (str ''example.com'') (str ''/''))
      = Inr \<lparr>resp = \<lparr>status = 500, headers = [(str ''Cache-Control'', str ''no-cache'')],
                       body = SendJson \<lparr>json_error = True, json_code = 500,
                                 json_message = msg_cannot_read,
                                 json_timestamp = str ''2024-01-01T00:00:00.000Z''\<rparr>\<rparr>,
             fs_log = [Exists (str ''/var/task/example.com/index.html''),
                       Stat (str ''/var/task/example.com/index.html''),
                       Read (str ''/var/task/example.com/index.html'')]\<rparr>"
proof -
  let ?s = "\<lparr>res_req = None\<rparr>"
  let ?f = "str ''/var/task/example.com/index.html''"
  let ?e' = "(demo_env ?f (str ''<h1>hello</h1>''))\<lparr>readFileSync := \<lambda>p. Inl EACCES\<rparr>"
  let ?r = "demo_req (str ''example.com'') (str ''/'')"
  have h: "clean_host (rawHost (demo_req (str ''a..com'') (str ''/''))) = str ''a..com''"
    by code_simp
  have rx: "rx_test host_rx (str ''a..com'')" by code_simp
  have inc: "js_includes (str ''a..com'') dotdot" by code_simp
  have ne: "str ''a..com'' \<noteq> []" by (simp add: str_def)
  have d: "host_display ?s = unknown_domain"
    by (simp add: host_display_def or_default_def)
  have first: "handler (demo_env (str ''/var/task/a..com/index.html'') (str ''<h1>hello</h1>''))
        ?s (demo_req (str ''a..com'') (str ''/''))
      = Inr \<lparr>resp = \<lparr>status = 404,
                      headers = [(str ''Cache-Control'', str ''no-cache, no-store, must-revalidate''),
                                  (str ''Content-Type'', str ''text/html; charset=utf-8'')],
                      body = Send (page_head @ msg_illegal_request @ page_mid
                                    @ unknown_domain @ page_tail)\<rparr>,
             fs_log = []\<rparr>"
    using rx inc ne by (simp add: h handler_def Let_def send404_def notFoundHtml_def d)
  have h2: "clean_host (rawHost ?r) = str ''example.com''" by code_simp
  have rx2: "rx_test host_rx (str ''example.com'')" by code_simp
  have acc: "accepted (clean_host (rawHost ?r))" unfolding h2 by code_simp
  have v: "valid_cwd (str ''/var/task'')" by code_simp
  have p: "?f = with_slash (str ''/var/task'') @ clean_host (rawHost ?r) @ ch_slash # index_html"
    unfolding h2 by code_simp
  have b: "cwd ?e' = Inr (str ''/var/task'')" "existsSync ?e' ?f"
    "statSync_isFile ?e' ?f = Inr True" "readFileSync ?e' ?f = Inl EACCES"
    "now_iso ?e' = str ''2024-01-01T00:00:00.000Z''"
    by (simp_all add: demo_env_def)
  have tb: "try_block ?e' ?s ?r (clean_host (rawHost ?r))
      = Inr (sendHtml ?e' ?f 200 [Exists ?f, Stat ?f])"
    using try_block_found [OF b(1) v _ p b(2), of ?s ?r] acc b(3) by simp
  have second: "handler ?e' ?s ?r
      = Inr \<lparr>resp = \<lparr>status = 500, headers = [(str ''Cache-Control'', str ''no-cache'')],
                       body = SendJson \<lparr>json_error = True, json_code = 500,
                                 json_message = msg_cannot_read,
                                 json_timestamp = str ''2024-01-01T00:00:00.000Z''\<rparr>\<rparr>,
             fs_log = [Exists ?f, Stat ?f, Read ?f]\<rparr>"
    by (simp add: handler_accepted [OF acc] tb sendHtml_def sendError_def b(4) b(5))
  show ?thesis
    unfolding h h2 using rx rx2 first second by (simp add: demo_env_def)
qed


section \<open>Host extraction keeps the header text\<close>

lemma strip_www_suffix: "suffix (strip_www s) s"
proof (cases s rule: strip_www.cases)
  case (1 a b c d rest)
  have "suffix rest ([a, b, c, d] @ rest)" by (rule suffix_appendI) simp
  with 1 show ?thesis by auto
qed simp_all

lemma js_split_hd_prefix: "prefix (hd (js_split sep s)) s"
  by (induction s) (auto split: list.splits)

lemma clean_host_sublist: "sublist (clean_host raw) raw"
proof -
  have "sublist (clean_host raw) (hd (js_split ch_colon raw))"
    unfolding clean_host_def by (rule suffix_imp_sublist) (rule strip_www_suffix)
  moreover have "sublist (hd (js_split ch_colon raw)) raw"
    by (rule prefix_imp_sublist) (rule js_split_hd_prefix)
  ultimately show ?thesis by (rule sublist_order.order_trans)
qed



section \<open>Fallback to the landing page\<close>

text \<open>
  Claim C5, amended. For an accepted host whose
  \<^verbatim>\<open><working-directory>/<host>/index.html\<close> does not exist: if the requested
  URL is exactly \<^verbatim>\<open>/\<close> and \<^verbatim>\<open><working-directory>/index.html\<close> exists, the
  handler reads it, and answers 200 with the string read as body when the read
  succeeds, and 500 with the JSON error "cannot read page content" when the read
  throws (the root index gets no regular-file test, so a directory of that name
  ends here). For any other URL, or when the root index does not exist, it
  answers 404 with the page whose message is the not-created text around the
  accepted host.
\<close>

theorem no_site_fallback:
  assumes "cwd e = Inr wd" and "valid_cwd wd"
    and "clean_host (rawHost req) = host" and "accepted host"
    and "p = with_slash wd @ host @ ch_slash # index_html" and "\<not> existsSync e p"
    and "root = with_slash wd @ index_html"
  shows "(url req = [ch_slash] \<and> existsSync e root \<and> readFileSync e root = Inr content \<longrightarrow>
            handler e res req
              = Inr \<lparr>resp = \<lparr>status = 200,
                       headers = [(str ''Cache-Control'', str ''public, max-age=3600, stale-while-revalidate=7200''),
                                  (str ''Content-Type'', str ''text/html; charset=utf-8''),
                                  (str ''X-Powered-By'', str ''Vercel-Domain-Router/1.0'')],
                       body = Send content\<rparr>,
                     fs_log = [Exists p, Exists root, Read root]\<rparr>)
       \<and> (url req = [ch_slash] \<and> existsSync e root \<and> readFileSync e root = Inl err \<longrightarrow>
            handler e res req
              = Inr \<lparr>resp = \<lparr>status = 500, headers = [(str ''Cache-Control'', str ''no-cache'')],
                       body = SendJson \<lparr>json_error = True, json_code = 500,
                                 json_message = msg_cannot_read,
                                 json_timestamp = now_iso e\<rparr>\<rparr>,
                     fs_log = [Exists p, Exists root, Read root]\<rparr>)
       \<and> (url req \<noteq> [ch_slash] \<or> \<not> existsSync e root \<longrightarrow>
            handler e res req
              = Inr \<lparr>resp = \<lparr>status = 404,
                       headers = [(str ''Cache-Control'', str ''no-cache, no-store, must-revalidate''),
                                  (str ''Content-Type'', str ''text/html; charset=utf-8'')],
                       body = Send (page_head
                                     @ (msg_not_created_pre @ host @ msg_not_created_post)
                                     @ page_mid @ host_display res @ page_tail)\<rparr>,
                     fs_log = [Exists p, Exists root]\<rparr>)"
proof -
  have acc: "accepted (clean_host (rawHost req))" using assms by simp
  have tb: "try_block e res req (clean_host (rawHost req))
      = (if existsSync e root \<and> url req = [ch_slash] then
           Inr (sendHtml e root 200 [Exists p, Exists root])
         else Inr \<lparr>resp = send404 res (msg_not_created_pre @ host @ msg_not_created_post),
                   fs_log = [Exists p, Exists root]\<rparr>)"
    using assms try_block_missing [of e wd host p root res req] by simp
  show ?thesis
    by (auto simp: handler_accepted [OF acc] tb sendHtml_def sendError_def send404_def
        notFoundHtml_def)
qed

theorem no_site_fallback_witness:
  "handler (demo_env (str ''/var/task/index.html'') (str ''<h1>landing</h1>''))
      \<lparr>res_req = None\<rparr> (demo_req (str ''nosite.org'') (str ''/''))
    = Inr \<lparr>resp = \<lparr>status = 200,
                    headers = [(str ''Cache-Control'', str ''public, max-age=3600, stale-while-revalidate=7200''),
                                  (str ''Content-Type'', str ''text/html; charset=utf-8''),
                                  (str ''X-Powered-By'', str ''Vercel-Domain-Router/1.0'')],
                    body = Send (str ''<h1>landing</h1>'')\<rparr>,
           fs_log = [Exists (str ''/var/task/nosite.org/index.html''),
                     Exists (str ''/var/task/index.html''),
                     Read (str ''/var/task/index.html'')]\<rparr>
   \<and> handler ((demo_env (str ''/var/task/index.html'') (str ''<h1>landing</h1>''))
                \<lparr>readFileSync := \<lambda>p. Inl OtherCode\<rparr>)
      \<lparr>res_req = None\<rparr> (demo_req (str ''nosite.org'') (str ''/''))
    = Inr \<lparr>resp = \<lparr>status = 500, headers = [(str ''Cache-Control'', str ''no-cache'')],
                       body = SendJson \<lparr>json_error = True, json_code = 500,
                                 json_message = msg_cannot_read,
                                 json_timestamp = str ''2024-01-01T00:00:00.000Z''\<rparr>\<rparr>,
           fs_log = [Exists (str ''/var/task/nosite.org/index.html''),
                     Exists (str ''/var/task/index.html''),
                     Read (str ''/var/task/index.html'')]\<rparr>
   \<and> handler (demo_env (str ''/var/task/index.html'') (str ''<h1>landing</h1>''))
      \<lparr>res_req = None\<rparr> (demo_req (str ''nosite.org'') (str ''/about''))
    = Inr \<lparr>resp = \<lparr>status = 404,
                    headers = [(str ''Cache-Control'', str ''no-cache, no-store, must-revalidate''),
                                  (str ''Content-Type'', str ''text/html; charset=utf-8'')],
                    body = Send (page_head
                                  @ (msg_not_created_pre @ str ''nosite.org'' @ msg_not_created_post)
                                  @ page_mid @ unknown_domain @ page_tail)\<rparr>,
           fs_log = [Exists (str ''/var/task/nosite.org/index.html''),
                     Exists (str ''/var/task/index.html'')]\<rparr>"
proof -
  let ?root = "str ''/var/task/index.html''"
  let ?e = "demo_env ?root (str ''<h1>landing</h1>'')"
  let ?e' = "?e\<lparr>readFileSync := \<lambda>p. Inl OtherCode\<rparr>"
  let ?p = "str ''/var/task/nosite.org/index.html''"
  let ?s = "\<lparr>res_req = None\<rparr>"
  let ?r = "demo_req (str ''nosite.org'') (str ''/'')"
  let ?q = "demo_req (str ''nosite.org'') (str ''/about'')"
  have 2: "valid_cwd (str ''/var/task'')" by code_simp
  have 3: "clean_host (rawHost (demo_req (str ''nosite.org'') u)) = str ''nosite.org''" for u
    by (simp add: demo_req_def rawHost_def js_or_def or_default_def str_def) code_simp
  have 4: "accepted (str ''nosite.org'')" by code_simp
  have 5: "?p = with_slash (str ''/var/task'') @ str ''nosite.org'' @ ch_slash # index_html"
    by code_simp
  have 7: "?root = with_slash (str ''/var/task'') @ index_html" by code_simp
  have ne: "?p \<noteq> ?root" by (simp add: str_def)
  have a: "cwd ?e = Inr (str ''/var/task'')" "\<not> existsSync ?e ?p"
    and a': "url ?r = [ch_slash] \<and> existsSync ?e ?root
        \<and> readFileSync ?e ?root = Inr (str ''<h1>landing</h1>'')"
    using ne by (simp_all add: demo_env_def demo_req_def str_def ch_slash_def)
  have b: "cwd ?e' = Inr (str ''/var/task'')" "\<not> existsSync ?e' ?p"
    and b': "url ?r = [ch_slash] \<and> existsSync ?e' ?root \<and> readFileSync ?e' ?root = Inl OtherCode"
    and bn: "now_iso ?e' = str ''2024-01-01T00:00:00.000Z''"
    using ne by (simp_all add: demo_env_def demo_req_def str_def ch_slash_def)
  have c': "url ?q \<noteq> [ch_slash] \<or> \<not> existsSync ?e ?root"
    by (simp add: demo_req_def str_def ch_slash_def)
  have d: "host_display ?s = unknown_domain"
    by (simp add: host_display_def or_default_def)
  note t1 = no_site_fallback [OF a(1) 2 3 4 5 a(2) 7, of "str ''/''" "str ''<h1>landing</h1>''" ?s,
      THEN conjunct1, THEN mp, OF a']
  note t2 = no_site_fallback [OF b(1) 2 3 4 5 b(2) 7, of "str ''/''" _ ?s OtherCode,
      THEN conjunct2, THEN conjunct1, THEN mp, OF b', unfolded bn]
  note t3 = no_site_fallback [OF a(1) 2 3 4 5 a(2) 7, of "str ''/about''" _ ?s,
      THEN conjunct2, THEN conjunct2, THEN mp, OF c', unfolded d]
  from t1 t2 t3 show ?thesis by (intro conjI)
qed

text \<open>
  The claim as first stated promises 200 as soon as the root index exists.
  Lines 46-50 test its existence only; where the read of an existing root index
  throws (it is a directory, or the process may not read it), \<^verbatim>\<open>sendHtml\<close>
  answers 500.
\<close>

theorem no_site_fallback_counterexample:
  "accepted (clean_host (rawHost (demo_req (str ''nosite.org'') (str ''/''))))
   \<and> \<not> existsSync ((demo_env (str ''/var/task/index.html'') (str ''<h1>landing</h1>''))
                      \<lparr>readFileSync := \<lambda>p. Inl OtherCode\<rparr>)
          (str ''/var/task/nosite.org/index.html'')
   \<and> url (demo_req (str ''nosite.org'') (str ''/'')) = [ch_slash]
   \<and> existsSync ((demo_env (str ''/var/task/index.html'') (str ''<h1>landing</h1>''))
                      \<lparr>readFileSync := \<lambda>p. Inl OtherCode\<rparr>)
          (str ''/var/task/index.html'')
   \<and> handler ((demo_env (str ''/var/task/index.html'') (str ''<h1>landing</h1>''))
                \<lparr>readFileSync := \<lambda>p. Inl OtherCode\<rparr>)
      \<lparr>res_req = None\<rparr> (demo_req (str ''nosite.org'') (str ''/''))
    = Inr \<lparr>resp = \<lparr>status = 500, headers = [(str ''Cache-Control'', str ''no-cache'')],
                       body = SendJson \<lparr>json_error = True, json_code = 500,
                                 json_message = msg_cannot_read,
                                 json_timestamp = str ''2024-01-01T00:00:00.000Z''\<rparr>\<rparr>,
           fs_log = [Exists (str ''/var/task/nosite.org/index.html''),
                     Exists (str ''/var/task/index.html''),
                     Read (str ''/var/task/index.html'')]\<rparr>"
proof -
  let ?root = "str ''/var/task/index.html''"
  let ?e' = "(demo_env ?root (str ''<h1>landing</h1>''))\<lparr>readFileSync := \<lambda>p. Inl OtherCode\<rparr>"
  let ?p = "str ''/var/task/nosite.org/index.html''"
  let ?s = "\<lparr>res_req = None\<rparr>"
  let ?r = "demo_req (str ''nosite.org'') (str ''/'')"
  have h: "clean_host (rawHost ?r) = str ''nosite.org''" by code_simp
  have acc: "accepted (clean_host (rawHost ?r))" unfolding h by code_simp
  have v: "valid_cwd (str ''/var/task'')" by code_simp
  have p: "?p = with_slash (str ''/var/task'') @ clean_host (rawHost ?r) @ ch_slash # index_html"
    unfolding h by code_simp
  have root: "?root = with_slash (str ''/var/task'') @ index_html" by code_simp
  have ne: "?p \<noteq> ?root" by (simp add: str_def)
  have b: "cwd ?e' = Inr (str ''/var/task'')" "\<not> existsSync ?e' ?p" "existsSync ?e' ?root"
    "readFileSync ?e' ?root = Inl OtherCode" "now_iso ?e' = str ''2024-01-01T00:00:00.000Z''"
    using ne by (simp_all add: demo_env_def)
  have u: "url ?r = [ch_slash]" by (simp add: demo_req_def str_def ch_slash_def)
  have tb: "try_block ?e' ?s ?r (clean_host (rawHost ?r))
      = Inr (sendHtml ?e' ?root 200 [Exists ?p, Exists ?root])"
    using try_block_missing [OF b(1) v acc p b(2) root, of ?s ?r] b(3) u by simp
  have main: "handler ?e' ?s ?r
      = Inr \<lparr>resp = \<lparr>status = 500, headers = [(str ''Cache-Control'', str ''no-cache'')],
                       body = SendJson \<lparr>json_error = True, json_code = 500,
                                 json_message = msg_cannot_read,
                                 json_timestamp = str ''2024-01-01T00:00:00.000Z''\<rparr>\<rparr>,
             fs_log = [Exists ?p, Exists ?root, Read ?root]\<rparr>"
    by (simp add: handler_accepted [OF acc] tb sendHtml_def sendError_def b(4) b(5))
  from acc b(2) u b(3) main show ?thesis by (intro conjI)
qed


section \<open>The pattern and the blacklist\<close>

text \<open>
  Claim C4, amended. Every host candidate containing a slash or a backslash fails
  the pattern, so these two tests of the blacklist reject only candidates the
  pattern rejects as well.
\<close>

theorem slash_fails_pattern:
  assumes "js_includes h [ch_slash] \<or> js_includes h [ch_backslash]"
  shows "\<not> rx_test host_rx h"
  using assms host_rx_no_slash by blast

theorem slash_fails_pattern_witness:
  "(js_includes (str ''a/b.com'') [ch_slash] \<or> js_includes (str ''a/b.com'') [ch_backslash])
   \<and> \<not> rx_test host_rx (str ''a/b.com'')"
proof -
  have a: "js_includes (str ''a/b.com'') [ch_slash] \<or> js_includes (str ''a/b.com'') [ch_backslash]"
    by code_simp
  from a slash_fails_pattern [OF a] show ?thesis by blast
qed

text \<open>
  The claim as first stated includes \<^verbatim>\<open>..\<close>. The pattern allows dots in the
  middle part of a host, two in a row as well: \<^verbatim>\<open>a..com\<close> contains \<^verbatim>\<open>..\<close> and
  matches, so here the blacklist rejects a host the pattern accepts.
\<close>

theorem dotdot_passes_pattern_counterexample:
  "js_includes (str ''a..com'') dotdot \<and> rx_test host_rx (str ''a..com'')"
  by code_simp


section \<open>Exceptions\<close>

lemma handler_returns: "\<exists>out. handler e res req = Inr out"
proof (cases "accepted (clean_host (rawHost req))")
  case True
  then show ?thesis
    by (cases "try_block e res req (clean_host (rawHost req))") (auto simp: handler_accepted)
next
  case False
  then show ?thesis
    by (auto simp: handler_def accepted_def Let_def)
qed

lemma handler_cwd_throws:
  assumes "accepted (clean_host (rawHost req))" and "cwd e = Inl err"
  shows "handler e res req = Inr \<lparr>resp = catch_block e res err, fs_log = []\<rparr>"
  using assms by (simp add: handler_accepted try_block_def)

lemma handler_stat_throws:
  assumes "accepted (clean_host (rawHost req))" and "cwd e = Inr wd" and "valid_cwd wd"
    and "p = with_slash wd @ clean_host (rawHost req) @ ch_slash # index_html"
    and "existsSync e p" and "statSync_isFile e p = Inl err"
  shows "handler e res req = Inr \<lparr>resp = catch_block e res err, fs_log = [Exists p, Stat p]\<rparr>"
  using assms by (simp add: handler_accepted try_block_found [where wd = wd and p = p])

lemma handler_read_throws:
  assumes "accepted (clean_host (rawHost req))" and "cwd e = Inr wd" and "valid_cwd wd"
    and "p = with_slash wd @ clean_host (rawHost req) @ ch_slash # index_html"
    and "existsSync e p" and "statSync_isFile e p = Inr True" and "readFileSync e p = Inl err"
  shows "handler e res req
        = Inr \<lparr>resp = sendError e 500 msg_cannot_read, fs_log = [Exists p, Stat p, Read p]\<rparr>"
  using assms
  by (simp add: handler_accepted try_block_found [where wd = wd and p = p] sendHtml_def)

lemma handler_root_read_throws:
  assumes "accepted (clean_host (rawHost req))" and "cwd e = Inr wd" and "valid_cwd wd"
    and "p = with_slash wd @ clean_host (rawHost req) @ ch_slash # index_html"
    and "root = with_slash wd @ index_html"
    and "\<not> existsSync e p" and "existsSync e root" and "url req = [ch_slash]"
    and "readFileSync e root = Inl err"
  shows "handler e res req
        = Inr \<lparr>resp = sendError e 500 msg_cannot_read,
               fs_log = [Exists p, Exists root, Read root]\<rparr>"
  using assms
  by (simp add: handler_accepted
      try_block_missing [where wd = wd and p = p and root = root] sendHtml_def)

text \<open>
  Claim C8. No exception leaves the handler: it always returns a response. On an
  accepted host, an exception thrown by \<^verbatim>\<open>process.cwd()\<close> or by \<^verbatim>\<open>statSync\<close>
  reaches the \<^verbatim>\<open>catch\<close> block, which answers \<^verbatim>\<open>ENOENT\<close> with the 404 page,
  \<^verbatim>\<open>EACCES\<close> with 403 JSON and any other code with 500 JSON; a read that fails
  after the existence check, of the site's file or of the landing page, is
  answered with 500 JSON "cannot read page content" whatever its code.
\<close>

theorem exceptions_are_caught:
  "(\<exists>out. handler e res req = Inr out)
   \<and> (accepted (clean_host (rawHost req)) \<and> cwd e = Inl err \<longrightarrow>
        handler e res req = Inr \<lparr>resp = catch_block e res err, fs_log = []\<rparr>)
   \<and> (accepted (clean_host (rawHost req)) \<and> cwd e = Inr wd \<and> valid_cwd wd
        \<and> p = with_slash wd @ clean_host (rawHost req) @ ch_slash # index_html
        \<and> existsSync e p \<and> statSync_isFile e p = Inl err \<longrightarrow>
        handler e res req
          = Inr \<lparr>resp = catch_block e res err, fs_log = [Exists p, Stat p]\<rparr>)
   \<and> (accepted (clean_host (rawHost req)) \<and> cwd e = Inr wd \<and> valid_cwd wd
        \<and> p = with_slash wd @ clean_host (rawHost req) @ ch_slash # index_html
        \<and> existsSync e p \<and> statSync_isFile e p = Inr True \<and> readFileSync e p = Inl err \<longrightarrow>
        handler e res req
          = Inr \<lparr>resp = sendError e 500 msg_cannot_read,
                 fs_log = [Exists p, Stat p, Read p]\<rparr>)
   \<and> (accepted (clean_host (rawHost req)) \<and> cwd e = Inr wd \<and> valid_cwd wd
        \<and> p = with_slash wd @ clean_host (rawHost req) @ ch_slash # index_html
        \<and> root = with_slash wd @ index_html
        \<and> \<not> existsSync e p \<and> existsSync e root \<and> url req = [ch_slash]
        \<and> readFileSync e root = Inl err \<longrightarrow>
        handler e res req
          = Inr \<lparr>resp = sendError e 500 msg_cannot_read,
                 fs_log = [Exists p, Exists root, Read root]\<rparr>)
   \<and> catch_block e res ENOENT = send404 res msg_resource_missing
   \<and> status (send404 res msg_resource_missing) = 404
   \<and> catch_block e res EACCES
       = \<lparr>status = 403, headers = [(str ''Cache-Control'', str ''no-cache'')],
          body = SendJson \<lparr>json_error = True, json_code = 403,
                           json_message = msg_no_permission, json_timestamp = now_iso e\<rparr>\<rparr>
   \<and> catch_block e res OtherCode
       = \<lparr>status = 500, headers = [(str ''Cache-Control'', str ''no-cache'')],
          body = SendJson \<lparr>json_error = True, json_code = 500,
                           json_message = msg_internal_error, json_timestamp = now_iso e\<rparr>\<rparr>
   \<and> sendError e 500 msg_cannot_read
       = \<lparr>status = 500, headers = [(str ''Cache-Control'', str ''no-cache'')],
          body = SendJson \<lparr>json_error = True, json_code = 500,
                           json_message = msg_cannot_read, json_timestamp = now_iso e\<rparr>\<rparr>"
proof (intro conjI impI, goal_cases)
  case 1
  show ?case by (rule handler_returns)
next
  case 2
  then show ?case by (elim conjE) (rule handler_cwd_throws)
next
  case 3
  then show ?case by (elim conjE) (rule handler_stat_throws; assumption)
next
  case 4
  then show ?case by (elim conjE) (rule handler_read_throws; assumption)
next
  case 5
  then show ?case by (elim conjE) (rule handler_root_read_throws; assumption)
next
  case 6
  show ?case by (simp add: catch_block_def)
next
  case 7
  show ?case by (simp add: send404_def)
next
  case 8
  show ?case by (simp add: catch_block_def sendError_def)
next
  case 9
  show ?case by (simp add: catch_block_def sendError_def)
next
  case 10
  show ?case by (simp add: sendError_def)
qed

theorem exceptions_are_caught_witness:
  "handler ((demo_env (str ''/var/task/example.com/index.html'') (str ''x''))
        \<lparr>statSync_isFile := \<lambda>p. Inl EACCES\<rparr>)
     \<lparr>res_req = None\<rparr> (demo_req (str ''example.com'') (str ''/''))
   = Inr \<lparr>resp = \<lparr>status = 403, headers = [(str ''Cache-Control'', str ''no-cache'')],
                   body = SendJson \<lparr>json_error = True, json_code = 403,
                             json_message = msg_no_permission,
                             json_timestamp = str ''2024-01-01T00:00:00.000Z''\<rparr>\<rparr>,
          fs_log = [Exists (str ''/var/task/example.com/index.html''),
                    Stat (str ''/var/task/example.com/index.html'')]\<rparr>
   \<and> handler ((demo_env (str ''/var/task/example.com/index.html'') (str ''x''))
        \<lparr>readFileSync := \<lambda>p. Inl ENOENT\<rparr>)
     \<lparr>res_req = None\<rparr> (demo_req (str ''example.com'') (str ''/''))
   = Inr \<lparr>resp = \<lparr>status = 500, headers = [(str ''Cache-Control'', str ''no-cache'')],
                   body = SendJson \<lparr>json_error = True, json_code = 500,
                             json_message = msg_cannot_read,
                             json_timestamp = str ''2024-01-01T00:00:00.000Z''\<rparr>\<rparr>,
          fs_log = [Exists (str ''/var/task/example.com/index.html''),
                    Stat (str ''/var/task/example.com/index.html''),
                    Read (str ''/var/task/example.com/index.html'')]\<rparr>"
proof -
  let ?f = "str ''/var/task/example.com/index.html''"
  let ?wd = "str ''/var/task''"
  let ?r = "demo_req (str ''example.com'') (str ''/'')"
  let ?s = "\<lparr>res_req = None\<rparr>"
  let ?e1 = "(demo_env ?f (str ''x''))\<lparr>statSync_isFile := \<lambda>p. Inl EACCES\<rparr>"
  let ?e2 = "(demo_env ?f (str ''x''))\<lparr>readFileSync := \<lambda>p. Inl ENOENT\<rparr>"
  have h: "clean_host (rawHost ?r) = str ''example.com''" by code_simp
  have acc: "accepted (clean_host (rawHost ?r))" unfolding h by code_simp
  have v: "valid_cwd ?wd" by code_simp
  have p: "?f = with_slash ?wd @ clean_host (rawHost ?r) @ ch_slash # index_html"
    unfolding h by code_simp
  have c1: "cwd ?e1 = Inr ?wd" "existsSync ?e1 ?f" "statSync_isFile ?e1 ?f = Inl EACCES"
    and n1: "now_iso ?e1 = str ''2024-01-01T00:00:00.000Z''"
    by (simp_all add: demo_env_def)
  have c2: "cwd ?e2 = Inr ?wd" "existsSync ?e2 ?f" "statSync_isFile ?e2 ?f = Inr True"
    "readFileSync ?e2 ?f = Inl ENOENT"
    and n2: "now_iso ?e2 = str ''2024-01-01T00:00:00.000Z''"
    by (simp_all add: demo_env_def)
  have pre1: "accepted (clean_host (rawHost ?r)) \<and> cwd ?e1 = Inr ?wd \<and> valid_cwd ?wd
        \<and> ?f = with_slash ?wd @ clean_host (rawHost ?r) @ ch_slash # index_html
        \<and> existsSync ?e1 ?f \<and> statSync_isFile ?e1 ?f = Inl EACCES"
    by (intro conjI) (fact acc c1 v p)+
  have pre2: "accepted (clean_host (rawHost ?r)) \<and> cwd ?e2 = Inr ?wd \<and> valid_cwd ?wd
        \<and> ?f = with_slash ?wd @ clean_host (rawHost ?r) @ ch_slash # index_html
        \<and> existsSync ?e2 ?f \<and> statSync_isFile ?e2 ?f = Inr True
        \<and> readFileSync ?e2 ?f = Inl ENOENT"
    by (intro conjI) (fact acc c2 v p)+
  note t1 = exceptions_are_caught [of ?e1 ?s ?r EACCES ?wd ?f, THEN conjunct2, THEN conjunct2]
  note t2 = exceptions_are_caught [of ?e2 ?s ?r ENOENT ?wd ?f, THEN conjunct2, THEN conjunct2]
  have first: "handler ?e1 ?s ?r
      = Inr \<lparr>resp = catch_block ?e1 ?s EACCES, fs_log = [Exists ?f, Stat ?f]\<rparr>"
    by (rule t1 [THEN conjunct1, THEN mp, OF pre1])
  have m1: "catch_block ?e1 ?s EACCES
       = \<lparr>status = 403, headers = [(str ''Cache-Control'', str ''no-cache'')],
          body = SendJson \<lparr>json_error = True, json_code = 403,
                           json_message = msg_no_permission, json_timestamp = now_iso ?e1\<rparr>\<rparr>"
    by (rule t1 [THEN conjunct2, THEN conjunct2, THEN conjunct2, THEN conjunct2,
          THEN conjunct2, THEN conjunct1])
  have second: "handler ?e2 ?s ?r
      = Inr \<lparr>resp = sendError ?e2 500 msg_cannot_read, fs_log = [Exists ?f, Stat ?f, Read ?f]\<rparr>"
    by (rule t2 [THEN conjunct2, THEN conjunct1, THEN mp, OF pre2])
  have m2: "sendError ?e2 500 msg_cannot_read
       = \<lparr>status = 500, headers = [(str ''Cache-Control'', str ''no-cache'')],
          body = SendJson \<lparr>json_error = True, json_code = 500,
                           json_message = msg_cannot_read, json_timestamp = now_iso ?e2\<rparr>\<rparr>"
    by (rule t2 [THEN conjunct2, THEN conjunct2, THEN conjunct2, THEN conjunct2,
          THEN conjunct2, THEN conjunct2, THEN conjunct2])
  show ?thesis
    unfolding first second m1 m2 n1 n2 by simp
qed


section \<open>Letter case of the host\<close>

lemma handler_first_call:
  assumes "cwd e = Inr wd" and "valid_cwd wd" and "accepted (clean_host (rawHost req))"
    and "p = with_slash wd @ clean_host (rawHost req) @ ch_slash # index_html"
  shows "\<exists>out log. handler e res req = Inr out \<and> fs_log out = Exists p # log"
proof (cases "existsSync e p")
  case True
  note found = try_block_found [OF assms(1,2,3,4) True, of res req]
  show ?thesis
  proof (cases "statSync_isFile e p")
    case (Inl err)
    with found show ?thesis by (simp add: handler_accepted assms(3))
  next
    case (Inr isFile)
    with found show ?thesis by (simp add: handler_accepted assms(3) sendHtml_def)
  qed
next
  case False
  have "try_block e res req (clean_host (rawHost req)) =
     (if existsSync e (with_slash wd @ index_html) \<and> url req = [ch_slash] then
        Inr (sendHtml e (with_slash wd @ index_html) 200 [Exists p, Exists (with_slash wd @ index_html)])
      else Inr \<lparr>resp = send404 res (msg_not_created_pre @ clean_host (rawHost req) @ msg_not_created_post),
                fs_log = [Exists p, Exists (with_slash wd @ index_html)]\<rparr>)"
    by (rule try_block_missing [OF assms(1,2,3,4) False]) simp
  then show ?thesis by (simp add: handler_accepted assms(3) sendHtml_def)
qed

text \<open>
  Claim C10. Matching ignores letter case: a string matches the pattern exactly
  when its lower-cased form does. Resolution keeps the case: the host is a
  contiguous piece of the incoming header, the resolved path is the working
  directory, the host as it is and \<^verbatim>\<open>index.html\<close>, and the first filesystem
  call of the handler checks that very path. So \<^verbatim>\<open>Example.COM\<close> is looked up
  at \<^verbatim>\<open><working-directory>/Example.COM/index.html\<close>.
\<close>

theorem host_case_preserved:
  assumes "cwd e = Inr wd" and "valid_cwd wd"
    and "clean_host (rawHost req) = host" and "accepted host"
  shows "rx_test host_rx (map ascii_lower s) = rx_test host_rx s
       \<and> sublist host (rawHost req)
       \<and> path_normalize (path_join [path_join [wd, host], index_html])
           = with_slash wd @ host @ ch_slash # index_html
       \<and> (\<exists>out log. handler e res req = Inr out
             \<and> fs_log out = Exists (with_slash wd @ host @ ch_slash # index_html) # log)"
proof (intro conjI)
  show "rx_test host_rx (map ascii_lower s) = rx_test host_rx s" by (rule rx_test_lower)
  show "sublist host (rawHost req)" using assms(3) clean_host_sublist [of "rawHost req"] by simp
  show "path_normalize (path_join [path_join [wd, host], index_html])
           = with_slash wd @ host @ ch_slash # index_html"
    using assms by (simp add: resolved_path accepted_clean_seg)
  show "\<exists>out log. handler e res req = Inr out
             \<and> fs_log out = Exists (with_slash wd @ host @ ch_slash # index_html) # log"
    using assms by (intro handler_first_call [where wd = wd]) simp_all
qed

theorem host_case_preserved_witness:
  "rx_test host_rx (map ascii_lower (str ''Example.COM'')) = rx_test host_rx (str ''Example.COM'')
   \<and> sublist (str ''Example.COM'') (rawHost (demo_req (str ''Example.COM'') (str ''/'')))
   \<and> path_normalize (path_join [path_join [str ''/var/task'', str ''Example.COM''], index_html])
       = str ''/var/task/Example.COM/index.html''
   \<and> (\<exists>out log. handler (demo_env (str ''/var/task/example.com/index.html'') (str ''x''))
                    \<lparr>res_req = None\<rparr> (demo_req (str ''Example.COM'') (str ''/'')) = Inr out
         \<and> fs_log out = Exists (str ''/var/task/Example.COM/index.html'') # log)
   \<and> str ''/var/task/Example.COM/index.html'' \<noteq> str ''/var/task/example.com/index.html''"
proof -
  let ?e = "demo_env (str ''/var/task/example.com/index.html'') (str ''x'')"
  let ?r = "demo_req (str ''Example.COM'') (str ''/'')"
  have 1: "cwd ?e = Inr (str ''/var/task'')" by (simp add: demo_env_def)
  have 2: "valid_cwd (str ''/var/task'')" by code_simp
  have 3: "clean_host (rawHost ?r) = str ''Example.COM''" by code_simp
  have 4: "accepted (str ''Example.COM'')" by code_simp
  have 5: "with_slash (str ''/var/task'') @ str ''Example.COM'' @ ch_slash # index_html
      = str ''/var/task/Example.COM/index.html''" by code_simp
  have 6: "str ''/var/task/Example.COM/index.html'' \<noteq> str ''/var/task/example.com/index.html''"
    by (simp add: str_def)
  from host_case_preserved [OF 1 2 3 4, of "str ''Example.COM''" "\<lparr>res_req = None\<rparr>"] 6
  show ?thesis unfolding 5 by simp
qed


section \<open>Rejected hosts\<close>

lemma host_rx2_chars:
  assumes "rx_test host_rx2 h"
  shows "\<forall>c\<in>set h. cls_az09dh c"
proof -
  from assms obtain c m a b t where h: "h = [c] @ m @ [ch_dot] @ [a] @ [b] @ t"
    and c: "cls_az09dh c" and m: "list_all cls_az09dh m"
    and t: "cls_az a" "cls_az b" "list_all cls_az t"
    by (auto simp: rx_test_lang host_rx2_def star_cls)
  have "cls_az09dh ch_dot" by (simp add: cls_az09dh_def)
  with h c m t show ?thesis
    by (auto simp: list_all_iff cls_az_sub)
qed

lemma host_rx2_no_slash:
  assumes "js_includes h [ch_slash] \<or> js_includes h [ch_backslash]"
  shows "\<not> rx_test host_rx2 h"
  using assms host_rx2_chars cls_az09dh_not_slash by (auto simp: js_includes_single)

lemma handler_invalid:
  assumes "clean_host (rawHost req) = [] \<or> \<not> rx_test host_rx (clean_host (rawHost req))"
  shows "handler e res req
     = Inr \<lparr>resp = send404 res (msg_invalid_domain @ clean_host (rawHost req)), fs_log = []\<rparr>"
  using assms by (auto simp: handler_def Let_def)

lemma handler_blacklisted:
  assumes "clean_host (rawHost req) \<noteq> []" and "rx_test host_rx (clean_host (rawHost req))"
    and "js_includes (clean_host (rawHost req)) dotdot
         \<or> js_includes (clean_host (rawHost req)) [ch_slash]
         \<or> js_includes (clean_host (rawHost req)) [ch_backslash]"
  shows "handler e res req = Inr \<lparr>resp = send404 res msg_illegal_request, fs_log = []\<rparr>"
  using assms by (auto simp: handler_def Let_def)

lemma handler_v2_invalid:
  assumes "host_v2 req = [] \<or> \<not> rx_test host_rx2 (host_v2 req)"
  shows "handler_v2 e req
     = Inr \<lparr>resp = \<lparr>status = 400, headers = [], body = Send msg2_invalid_request\<rparr>,
            fs_log = []\<rparr>"
  using assms by (auto simp: handler_v2_def Let_def)

lemma handler_v2_lookup:
  assumes "host_v2 req \<noteq> []" and "rx_test host_rx2 (host_v2 req)" and "cwd e = Inr wd"
  shows "\<exists>out log. handler_v2 e req = Inr out
           \<and> fs_log out = Exists (path_join [wd, host_v2 req, index_html]) # log"
  using assms by (simp add: handler_v2_def Let_def)

text \<open>
  Claim C2, amended. In the first variant, every request whose host candidate
  contains \<^verbatim>\<open>..\<close>, a slash or a backslash is answered with status 404 and
  without any filesystem call. In the second variant a candidate containing a
  slash or a backslash is answered with status 400, also without any filesystem
  call; every candidate that matches its pattern, with \<^verbatim>\<open>..\<close> in it or not,
  is looked up on disk.
\<close>

theorem traversal_hosts_rejected:
  "(js_includes (clean_host (rawHost req)) dotdot
      \<or> js_includes (clean_host (rawHost req)) [ch_slash]
      \<or> js_includes (clean_host (rawHost req)) [ch_backslash] \<longrightarrow>
        (\<exists>out. handler e res req = Inr out \<and> status (resp out) = 404 \<and> fs_log out = []))
   \<and> (js_includes (host_v2 req) [ch_slash] \<or> js_includes (host_v2 req) [ch_backslash] \<longrightarrow>
        handler_v2 e req
          = Inr \<lparr>resp = \<lparr>status = 400, headers = [], body = Send msg2_invalid_request\<rparr>,
                 fs_log = []\<rparr>)
   \<and> (host_v2 req \<noteq> [] \<and> rx_test host_rx2 (host_v2 req) \<and> cwd e = Inr wd \<longrightarrow>
        (\<exists>out log. handler_v2 e req = Inr out
           \<and> fs_log out = Exists (path_join [wd, host_v2 req, index_html]) # log))"
proof (intro conjI impI)
  assume bad: "js_includes (clean_host (rawHost req)) dotdot
      \<or> js_includes (clean_host (rawHost req)) [ch_slash]
      \<or> js_includes (clean_host (rawHost req)) [ch_backslash]"
  show "\<exists>out. handler e res req = Inr out \<and> status (resp out) = 404 \<and> fs_log out = []"
  proof (cases "clean_host (rawHost req) = [] \<or> \<not> rx_test host_rx (clean_host (rawHost req))")
    case True
    then show ?thesis by (simp add: handler_invalid send404_def)
  next
    case False
    with bad show ?thesis by (simp add: handler_blacklisted send404_def)
  qed
next
  assume "js_includes (host_v2 req) [ch_slash] \<or> js_includes (host_v2 req) [ch_backslash]"
  then have "\<not> rx_test host_rx2 (host_v2 req)" by (rule host_rx2_no_slash)
  then show "handler_v2 e req
          = Inr \<lparr>resp = \<lparr>status = 400, headers = [], body = Send msg2_invalid_request\<rparr>,
                 fs_log = []\<rparr>"
    by (simp add: handler_v2_invalid)
next
  assume "host_v2 req \<noteq> [] \<and> rx_test host_rx2 (host_v2 req) \<and> cwd e = Inr wd"
  then show "\<exists>out log. handler_v2 e req = Inr out
           \<and> fs_log out = Exists (path_join [wd, host_v2 req, index_html]) # log"
    by (elim conjE) (rule handler_v2_lookup)
qed

theorem traversal_hosts_rejected_witness:
  "(\<exists>out. handler (demo_env (str ''/var/task/example.com/index.html'') (str ''x''))
            \<lparr>res_req = None\<rparr> (demo_req (str ''a..com'') (str ''/'')) = Inr out
        \<and> status (resp out) = 404 \<and> fs_log out = [])
   \<and> handler_v2 (demo_env (str ''/var/task/example.com/index.html'') (str ''x''))
        (demo_req (str ''a/b.com'') (str ''/''))
      = Inr \<lparr>resp = \<lparr>status = 400, headers = [], body = Send msg2_invalid_request\<rparr>,
             fs_log = []\<rparr>
   \<and> (\<exists>out log. handler_v2 (demo_env (str ''/var/task/example.com/index.html'') (str ''x''))
            (demo_req (str ''a..com'') (str ''/'')) = Inr out
        \<and> fs_log out = Exists (str ''/var/task/a..com/index.html'') # log)"
proof -
  let ?e = "demo_env (str ''/var/task/example.com/index.html'') (str ''x'')"
  let ?s = "\<lparr>res_req = None\<rparr>"
  let ?r1 = "demo_req (str ''a..com'') (str ''/'')"
  let ?r2 = "demo_req (str ''a/b.com'') (str ''/'')"
  have a: "js_includes (clean_host (rawHost ?r1)) dotdot" by code_simp
  have b: "js_includes (host_v2 ?r2) [ch_slash]" by code_simp
  have c: "host_v2 ?r1 \<noteq> [] \<and> rx_test host_rx2 (host_v2 ?r1) \<and> cwd ?e = Inr (str ''/var/task'')"
    by (simp add: demo_env_def) code_simp
  have p: "path_join [str ''/var/task'', host_v2 ?r1, index_html]
      = str ''/var/task/a..com/index.html''" by code_simp
  note t1 = traversal_hosts_rejected [of ?r1 ?e ?s, THEN conjunct1, THEN mp, OF disjI1, OF a]
  note t2 = traversal_hosts_rejected [of ?r2 ?e ?s, THEN conjunct2, THEN conjunct1, THEN mp,
      OF disjI1, OF b]
  note t3 = traversal_hosts_rejected [of ?r1 ?e ?s "str ''/var/task''", THEN conjunct2,
      THEN conjunct2, THEN mp, OF c, unfolded p]
  from t1 t2 t3 show ?thesis by (intro conjI)
qed

text \<open>
  The claim as first stated speaks of one handler. The second variant answers a
  host with a slash with 400, not 404; and it has no blacklist, so \<^verbatim>\<open>a..com\<close>,
  which matches its pattern, is looked up on disk before the 404 is sent.
\<close>

theorem traversal_hosts_rejected_counterexample:
  "js_includes (host_v2 (demo_req (str ''a/b.com'') (str ''/''))) [ch_slash]
   \<and> handler_v2 (demo_env (str ''/var/task/example.com/index.html'') (str ''x''))
        (demo_req (str ''a/b.com'') (str ''/''))
      = Inr \<lparr>resp = \<lparr>status = 400, headers = [], body = Send msg2_invalid_request\<rparr>,
             fs_log = []\<rparr>
   \<and> js_includes (host_v2 (demo_req (str ''a..com'') (str ''/''))) dotdot
   \<and> handler_v2 (demo_env (str ''/var/task/example.com/index.html'') (str ''x''))
        (demo_req (str ''a..com'') (str ''/''))
      = Inr \<lparr>resp = \<lparr>status = 404, headers = [],
                      body = Send (msg2_not_created_pre @ str ''a..com'' @ msg2_not_created_post)\<rparr>,
             fs_log = [Exists (str ''/var/task/a..com/index.html'')]\<rparr>"
proof -
  let ?e = "demo_env (str ''/var/task/example.com/index.html'') (str ''x'')"
  have h1: "host_v2 (demo_req (str ''a/b.com'') (str ''/'')) = str ''a/b.com''" by code_simp
  have h2: "host_v2 (demo_req (str ''a..com'') (str ''/'')) = str ''a..com''" by code_simp
  have i1: "js_includes (str ''a/b.com'') [ch_slash]" by code_simp
  have i2: "js_includes (str ''a..com'') dotdot" by code_simp
  have r1: "\<not> rx_test host_rx2 (str ''a/b.com'')" by code_simp
  have r2: "rx_test host_rx2 (str ''a..com'')" by code_simp
  have n2: "str ''a..com'' \<noteq> []" by (simp add: str_def)
  have p2: "path_join [str ''/var/task'', str ''a..com'', index_html]
      = str ''/var/task/a..com/index.html''" by code_simp
  have x2: "\<not> existsSync ?e (str ''/var/task/a..com/index.html'')"
    by (simp add: demo_env_def) code_simp
  have c: "cwd ?e = Inr (str ''/var/task'')" by (simp add: demo_env_def)
  have v1: "handler_v2 ?e (demo_req (str ''a/b.com'') (str ''/''))
      = Inr \<lparr>resp = \<lparr>status = 400, headers = [], body = Send msg2_invalid_request\<rparr>,
             fs_log = []\<rparr>"
    using r1 by (simp add: handler_v2_invalid h1)
  have v2: "handler_v2 ?e (demo_req (str ''a..com'') (str ''/''))
      = Inr \<lparr>resp = \<lparr>status = 404, headers = [],
                      body = Send (msg2_not_created_pre @ str ''a..com'' @ msg2_not_created_post)\<rparr>,
             fs_log = [Exists (str ''/var/task/a..com/index.html'')]\<rparr>"
    unfolding handler_v2_def h2 Let_def c sum.case p2 using r2 n2 x2 by simp
  show ?thesis unfolding h1 h2 using i1 i2 v1 v2 by simp
qed

text \<open>
  Claim C6, amended. In the first variant, every request whose host candidate is
  empty or fails the pattern is answered with status 404 and the HTML page whose
  message is "invalid domain: " followed by the candidate, and a candidate
  stopped by the blacklist with status 404 and the HTML page whose message is
  "illegal request"; neither is a 400. The page is the template of
  \<^verbatim>\<open>send404\<close> around the message and the displayed host header. The second
  variant answers an empty or non-matching host with status 400 and a plain
  text.
\<close>

theorem invalid_host_response:
  "(clean_host (rawHost req) = [] \<or> \<not> rx_test host_rx (clean_host (rawHost req)) \<longrightarrow>
      handler e res req
        = Inr \<lparr>resp = \<lparr>status = 404,
                        headers = [(str ''Cache-Control'', str ''no-cache, no-store, must-revalidate''),
                                  (str ''Content-Type'', str ''text/html; charset=utf-8'')],
                        body = Send (page_head
                                      @ (msg_invalid_domain @ clean_host (rawHost req))
                                      @ page_mid @ host_display res @ page_tail)\<rparr>,
               fs_log = []\<rparr>)
   \<and> (clean_host (rawHost req) \<noteq> [] \<and> rx_test host_rx (clean_host (rawHost req))
       \<and> (js_includes (clean_host (rawHost req)) dotdot
            \<or> js_includes (clean_host (rawHost req)) [ch_slash]
            \<or> js_includes (clean_host (rawHost req)) [ch_backslash]) \<longrightarrow>
      handler e res req
        = Inr \<lparr>resp = \<lparr>status = 404,
                        headers = [(str ''Cache-Control'', str ''no-cache, no-store, must-revalidate''),
                                  (str ''Content-Type'', str ''text/html; charset=utf-8'')],
                        body = Send (page_head @ msg_illegal_request
                                      @ page_mid @ host_display res @ page_tail)\<rparr>,
               fs_log = []\<rparr>)
   \<and> (host_v2 req = [] \<or> \<not> rx_test host_rx2 (host_v2 req) \<longrightarrow>
      handler_v2 e req
        = Inr \<lparr>resp = \<lparr>status = 400, headers = [], body = Send msg2_invalid_request\<rparr>,
               fs_log = []\<rparr>)"
proof (intro conjI impI, goal_cases)
  case 1
  then show ?case by (simp add: handler_invalid send404_def notFoundHtml_def)
next
  case 2
  then show ?case by (simp add: handler_blacklisted send404_def notFoundHtml_def)
next
  case 3
  then show ?case by (rule handler_v2_invalid)
qed

theorem invalid_host_response_witness:
  "handler (demo_env (str ''/var/task/example.com/index.html'') (str ''x''))
      \<lparr>res_req = None\<rparr> (demo_req (str ''local_host'') (str ''/''))
    = Inr \<lparr>resp = \<lparr>status = 404,
                    headers = [(str ''Cache-Control'', str ''no-cache, no-store, must-revalidate''),
                                  (str ''Content-Type'', str ''text/html; charset=utf-8'')],
                    body = Send (page_head @ (msg_invalid_domain @ str ''local_host'')
                                  @ page_mid @ unknown_domain @ page_tail)\<rparr>,
           fs_log = []\<rparr>
   \<and> handler (demo_env (str ''/var/task/example.com/index.html'') (str ''x''))
      \<lparr>res_req = None\<rparr> (demo_req (str ''a..com'') (str ''/''))
    = Inr \<lparr>resp = \<lparr>status = 404,
                    headers = [(str ''Cache-Control'', str ''no-cache, no-store, must-revalidate''),
                                  (str ''Content-Type'', str ''text/html; charset=utf-8'')],
                    body = Send (page_head @ msg_illegal_request
                                  @ page_mid @ unknown_domain @ page_tail)\<rparr>,
           fs_log = []\<rparr>
   \<and> handler_v2 (demo_env (str ''/var/task/example.com/index.html'') (str ''x''))
        (demo_req (str ''local_host'') (str ''/''))
    = Inr \<lparr>resp = \<lparr>status = 400, headers = [], body = Send msg2_invalid_request\<rparr>,
           fs_log = []\<rparr>"
proof -
  let ?e = "demo_env (str ''/var/task/example.com/index.html'') (str ''x'')"
  let ?s = "\<lparr>res_req = None\<rparr>"
  let ?r = "demo_req (str ''local_host'') (str ''/'')"
  let ?q = "demo_req (str ''a..com'') (str ''/'')"
  have h: "clean_host (rawHost ?r) = str ''local_host''" by code_simp
  have a: "clean_host (rawHost ?r) = [] \<or> \<not> rx_test host_rx (clean_host (rawHost ?r))"
    unfolding h by code_simp
  have b: "host_v2 ?r = [] \<or> \<not> rx_test host_rx2 (host_v2 ?r)" by code_simp
  have c: "clean_host (rawHost ?q) \<noteq> [] \<and> rx_test host_rx (clean_host (rawHost ?q))
       \<and> (js_includes (clean_host (rawHost ?q)) dotdot
            \<or> js_includes (clean_host (rawHost ?q)) [ch_slash]
            \<or> js_includes (clean_host (rawHost ?q)) [ch_backslash])"
    by code_simp
  have d: "host_display ?s = unknown_domain"
    by (simp add: host_display_def or_default_def)
  note t1 = invalid_host_response [of ?r ?e ?s, THEN conjunct1, THEN mp, OF a]
  note t2 = invalid_host_response [of ?q ?e ?s, THEN conjunct2, THEN conjunct1, THEN mp, OF c]
  note t3 = invalid_host_response [of ?r ?e ?s, THEN conjunct2, THEN conjunct2, THEN mp, OF b]
  from t1 [unfolded h d] t2 [unfolded d] t3 show ?thesis by (intro conjI)
qed

text \<open>
  The claim as first stated excludes a 400. A request without any host header
  has the empty candidate, and the second variant answers it with 400.
\<close>

theorem invalid_host_response_counterexample:
  "host_v2 \<lparr>x_forwarded_host = None, host_header = None, url = str ''/''\<rparr> = []
   \<and> handler_v2 (demo_env (str ''/var/task/example.com/index.html'') (str ''x''))
        \<lparr>x_forwarded_host = None, host_header = None, url = str ''/''\<rparr>
      = Inr \<lparr>resp = \<lparr>status = 400, headers = [], body = Send msg2_invalid_request\<rparr>,
             fs_log = []\<rparr>"
proof -
  have h: "host_v2 \<lparr>x_forwarded_host = None, host_header = None, url = str ''/''\<rparr> = []"
    by code_simp
  then show ?thesis by (simp add: handler_v2_invalid)
qed


section \<open>What the 404 page shows\<close>

lemma host_display_linked:
  assumes "res_req res = Some req" and "host_header req = Some hh" and "hh \<noteq> []"
  shows "host_display res = hh"
  using assms by (simp add: host_display_def or_default_def)

lemma host_display_unlinked:
  assumes "res_req res = None"
  shows "host_display res = unknown_domain"
  using assms by (simp add: host_display_def or_default_def)

lemma host_display_no_header:
  assumes "res_req res = Some req" and "host_header req = None \<or> host_header req = Some []"
  shows "host_display res = unknown_domain"
  using assms by (auto simp: host_display_def or_default_def)

lemma status_sendHtml_200:
  "status (resp (sendHtml e p 200 log)) \<noteq> 404"
  by (simp add: sendHtml_def sendError_def split: sum.splits)

lemma try_block_404:
  assumes "try_block e res req host = Inr out" and "status (resp out) = 404"
  shows "resp out = send404 res msg_illegal_path
       \<or> resp out = send404 res (msg_not_created_pre @ host @ msg_not_created_post)
       \<or> resp out = send404 res msg_wrong_type"
proof (cases "cwd e")
  case (Inl err)
  with assms show ?thesis by (simp add: try_block_def)
next
  case (Inr wd)
  define np where "np = path_normalize (path_join [path_join [wd, host], index_html])"
  define root where "root = path_join [wd, index_html]"
  have tb: "try_block e res req host =
      (if \<not> prefix wd np then Inr \<lparr>resp = send404 res msg_illegal_path, fs_log = []\<rparr>
       else if \<not> existsSync e np then
         (if existsSync e root \<and> url req = [ch_slash] then
            Inr (sendHtml e root 200 [Exists np, Exists root])
          else Inr \<lparr>resp = send404 res (msg_not_created_pre @ host @ msg_not_created_post),
                    fs_log = [Exists np, Exists root]\<rparr>)
       else (case statSync_isFile e np of
               Inl err \<Rightarrow> Inl (err, [Exists np, Stat np])
             | Inr isFile \<Rightarrow>
                 if \<not> isFile then
                   Inr \<lparr>resp = send404 res msg_wrong_type, fs_log = [Exists np, Stat np]\<rparr>
                 else Inr (sendHtml e np 200 [Exists np, Stat np])))"
    unfolding try_block_def Inr sum.case Let_def np_def root_def by (rule refl)
  show ?thesis
  proof (cases "prefix wd np")
    case False
    with assms tb show ?thesis by auto
  next
    case pre: True
    show ?thesis
    proof (cases "existsSync e np")
      case False
      with assms tb pre status_sendHtml_200 [of e root "[Exists np, Exists root]"]
      show ?thesis by (auto split: if_splits)
    next
      case True
      show ?thesis
      proof (cases "statSync_isFile e np")
        case (Inl err)
        with assms tb pre True show ?thesis by simp
      next
        case (Inr isFile)
        with assms tb pre True status_sendHtml_200 [of e np "[Exists np, Stat np]"]
        show ?thesis by (auto split: if_splits)
      qed
    qed
  qed
qed

lemma handler_404_message:
  assumes "handler e res req = Inr out" and "status (resp out) = 404"
  shows "\<exists>m. resp out = send404 res m
       \<and> (m = msg_invalid_domain @ clean_host (rawHost req) \<or> m = msg_illegal_request
          \<or> m = msg_illegal_path
          \<or> m = msg_not_created_pre @ clean_host (rawHost req) @ msg_not_created_post
          \<or> m = msg_wrong_type \<or> m = msg_resource_missing)"
proof (cases "accepted (clean_host (rawHost req))")
  case False
  then consider
    (inv) "clean_host (rawHost req) = [] \<or> \<not> rx_test host_rx (clean_host (rawHost req))"
    | (bl) "clean_host (rawHost req) \<noteq> []" "rx_test host_rx (clean_host (rawHost req))"
      "js_includes (clean_host (rawHost req)) dotdot
         \<or> js_includes (clean_host (rawHost req)) [ch_slash]
         \<or> js_includes (clean_host (rawHost req)) [ch_backslash]"
    by (auto simp: accepted_def)
  then show ?thesis
  proof cases
    case inv
    with assms show ?thesis by (auto simp: handler_invalid)
  next
    case bl
    with assms show ?thesis by (auto simp: handler_blacklisted)
  qed
next
  case True
  note h = handler_accepted [OF True, of e res]
  show ?thesis
  proof (cases "try_block e res req (clean_host (rawHost req))")
    case (Inr o')
    with h assms have "o' = out" by simp
    with Inr assms(2) try_block_404 [of e res req "clean_host (rawHost req)" out]
    show ?thesis by auto
  next
    case (Inl el)
    obtain err log where el: "el = (err, log)" by (cases el)
    with Inl h assms have r: "resp out = catch_block e res err" by auto
    show ?thesis
    proof (cases err)
      case ENOENT
      with r show ?thesis by (auto simp: catch_block_def)
    next
      case EACCES
      with r assms(2) show ?thesis by (simp add: catch_block_def sendError_def)
    next
      case OtherCode
      with r assms(2) show ?thesis by (simp add: catch_block_def sendError_def)
    qed
  qed
qed

text \<open>
  Claim C3, amended. Every 404 response is the fixed template filled with one
  message and with the request's own \<^verbatim>\<open>host\<close> header as it arrived ("unknown
  domain" when that header is absent or empty, or when the response object has
  no request). The message is one of six;
  the host candidate occurs in two of them: the invalid-domain message carries
  the candidate that failed the pattern, unchanged, and the not-created message
  carries the accepted host. A host stopped by the blacklist gets the fixed
  message "illegal request".
\<close>

theorem not_found_page_content:
  "(handler e res req = Inr out \<and> status (resp out) = 404 \<longrightarrow>
      (\<exists>m. body (resp out) = Send (page_head @ m @ page_mid @ host_display res @ page_tail)
         \<and> (m = msg_invalid_domain @ clean_host (rawHost req) \<or> m = msg_illegal_request
            \<or> m = msg_illegal_path
            \<or> m = msg_not_created_pre @ clean_host (rawHost req) @ msg_not_created_post
            \<or> m = msg_wrong_type \<or> m = msg_resource_missing)))
   \<and> (clean_host (rawHost req) = [] \<or> \<not> rx_test host_rx (clean_host (rawHost req)) \<longrightarrow>
        (\<exists>out'. handler e res req = Inr out' \<and> status (resp out') = 404
           \<and> body (resp out')
               = Send (page_head @ (msg_invalid_domain @ clean_host (rawHost req)) @ page_mid
                        @ host_display res @ page_tail)))
   \<and> (clean_host (rawHost req) \<noteq> [] \<and> rx_test host_rx (clean_host (rawHost req))
       \<and> (js_includes (clean_host (rawHost req)) dotdot
            \<or> js_includes (clean_host (rawHost req)) [ch_slash]
            \<or> js_includes (clean_host (rawHost req)) [ch_backslash]) \<longrightarrow>
        (\<exists>out'. handler e res req = Inr out' \<and> status (resp out') = 404
           \<and> body (resp out')
               = Send (page_head @ msg_illegal_request @ page_mid @ host_display res @ page_tail)))
   \<and> (res_req res = Some req \<and> host_header req = Some hh \<and> hh \<noteq> [] \<longrightarrow> host_display res = hh)
   \<and> (res_req res = None \<longrightarrow> host_display res = unknown_domain)
   \<and> (res_req res = Some req \<and> (host_header req = None \<or> host_header req = Some []) \<longrightarrow>
        host_display res = unknown_domain)"
proof (intro conjI impI, goal_cases)
  case 1
  then have "handler e res req = Inr out" and "status (resp out) = 404" by simp_all
  from handler_404_message [OF this] show ?case
    by (auto simp: send404_def notFoundHtml_def)
next
  case 2
  then show ?case by (simp add: handler_invalid send404_def notFoundHtml_def)
next
  case 3
  then show ?case by (simp add: handler_blacklisted send404_def notFoundHtml_def)
next
  case 4
  then show ?case by (elim conjE) (rule host_display_linked)
next
  case 5
  then show ?case by (rule host_display_unlinked)
next
  case 6
  then show ?case by (elim conjE) (rule host_display_no_header)
qed

theorem not_found_page_content_witness:
  "(\<exists>out'. handler (demo_env (str ''/var/task/example.com/index.html'') (str ''x''))
            \<lparr>res_req = Some (demo_req (str ''bad_host:80'') (str ''/''))\<rparr>
            (demo_req (str ''bad_host:80'') (str ''/'')) = Inr out'
      \<and> status (resp out') = 404
      \<and> body (resp out')
          = Send (page_head @ (msg_invalid_domain @ str ''bad_host'') @ page_mid
                   @ str ''bad_host:80'' @ page_tail))
   \<and> (\<exists>out'. handler (demo_env (str ''/var/task/example.com/index.html'') (str ''x''))
            \<lparr>res_req = Some \<lparr>x_forwarded_host = Some (str ''bad_host''), host_header = None,
                              url = str ''/''\<rparr>\<rparr>
            \<lparr>x_forwarded_host = Some (str ''bad_host''), host_header = None, url = str ''/''\<rparr>
          = Inr out'
      \<and> status (resp out') = 404
      \<and> body (resp out')
          = Send (page_head @ (msg_invalid_domain @ str ''bad_host'') @ page_mid
                   @ unknown_domain @ page_tail))"
proof -
  let ?e = "demo_env (str ''/var/task/example.com/index.html'') (str ''x'')"
  let ?r = "demo_req (str ''bad_host:80'') (str ''/'')"
  let ?s = "\<lparr>res_req = Some ?r\<rparr>"
  let ?q = "\<lparr>x_forwarded_host = Some (str ''bad_host''), host_header = None, url = str ''/''\<rparr>"
  let ?sq = "\<lparr>res_req = Some ?q\<rparr>"
  have h: "clean_host (rawHost ?r) = str ''bad_host''" by code_simp
  have a: "clean_host (rawHost ?r) = [] \<or> \<not> rx_test host_rx (clean_host (rawHost ?r))"
    unfolding h by code_simp
  have b: "res_req ?s = Some ?r \<and> host_header ?r = Some (str ''bad_host:80'')
      \<and> str ''bad_host:80'' \<noteq> []"
    by (simp add: demo_req_def str_def)
  have hq: "clean_host (rawHost ?q) = str ''bad_host''" by code_simp
  have aq: "clean_host (rawHost ?q) = [] \<or> \<not> rx_test host_rx (clean_host (rawHost ?q))"
    unfolding hq by code_simp
  have bq: "res_req ?sq = Some ?q \<and> (host_header ?q = None \<or> host_header ?q = Some [])"
    by simp
  note t = not_found_page_content [of ?e ?s ?r _ "str ''bad_host:80''"]
  note page = t [THEN conjunct2, THEN conjunct1, THEN mp, OF a]
  note shown = t [THEN conjunct2, THEN conjunct2, THEN conjunct2, THEN conjunct1, THEN mp, OF b]
  note tq = not_found_page_content [of ?e ?sq ?q]
  note pageq = tq [THEN conjunct2, THEN conjunct1, THEN mp, OF aq]
  note shownq = tq [THEN conjunct2, THEN conjunct2, THEN conjunct2, THEN conjunct2,
      THEN conjunct2, THEN mp, OF bq]
  from page [unfolded shown h] pageq [unfolded shownq hq] show ?thesis by (rule conjI)
qed

text \<open>
  The claim as first stated says that a host that failed validation never
  reaches a response body. The candidate \<^verbatim>\<open>x/../y.com\<close> fails the pattern and
  is written into the page twice, in the message and as the displayed host
  header. The candidate \<^verbatim>\<open>a..com\<close> is stopped by the blacklist; the message is
  the fixed one, and the page still shows the \<^verbatim>\<open>host\<close> header \<^verbatim>\<open>a..com\<close>.
\<close>

theorem not_found_page_content_counterexample:
  "\<not> rx_test host_rx (clean_host (rawHost (demo_req (str ''x/../y.com'') (str ''/''))))
   \<and> handler (demo_env (str ''/var/task/example.com/index.html'') (str ''x''))
        \<lparr>res_req = Some (demo_req (str ''x/../y.com'') (str ''/''))\<rparr>
        (demo_req (str ''x/../y.com'') (str ''/''))
      = Inr \<lparr>resp = \<lparr>status = 404,
                      headers = [(str ''Cache-Control'', str ''no-cache, no-store, must-revalidate''),
                                 (str ''Content-Type'', str ''text/html; charset=utf-8'')],
                      body = Send (page_head @ (msg_invalid_domain @ str ''x/../y.com'') @ page_mid
                                    @ str ''x/../y.com'' @ page_tail)\<rparr>,
             fs_log = []\<rparr>
   \<and> rx_test host_rx (clean_host (rawHost (demo_req (str ''a..com'') (str ''/''))))
   \<and> js_includes (clean_host (rawHost (demo_req (str ''a..com'') (str ''/'')))) dotdot
   \<and> handler (demo_env (str ''/var/task/example.com/index.html'') (str ''x''))
        \<lparr>res_req = Some (demo_req (str ''a..com'') (str ''/''))\<rparr>
        (demo_req (str ''a..com'') (str ''/''))
      = Inr \<lparr>resp = \<lparr>status = 404,
                      headers = [(str ''Cache-Control'', str ''no-cache, no-store, must-revalidate''),
                                 (str ''Content-Type'', str ''text/html; charset=utf-8'')],
                      body = Send (page_head @ msg_illegal_request @ page_mid
                                    @ str ''a..com'' @ page_tail)\<rparr>,
             fs_log = []\<rparr>"
proof -
  let ?e = "demo_env (str ''/var/task/example.com/index.html'') (str ''x'')"
  let ?r1 = "demo_req (str ''x/../y.com'') (str ''/'')"
  let ?r2 = "demo_req (str ''a..com'') (str ''/'')"
  have h1: "clean_host (rawHost ?r1) = str ''x/../y.com''" by code_simp
  have h2: "clean_host (rawHost ?r2) = str ''a..com''" by code_simp
  have n1: "\<not> rx_test host_rx (str ''x/../y.com'')" by code_simp
  have y2: "rx_test host_rx (str ''a..com'')" by code_simp
  have i2: "js_includes (str ''a..com'') dotdot" by code_simp
  have ne2: "str ''a..com'' \<noteq> []" by (simp add: str_def)
  have d1: "host_display \<lparr>res_req = Some ?r1\<rparr> = str ''x/../y.com''"
    by (rule host_display_linked [where req = ?r1]) (simp_all add: demo_req_def str_def)
  have d2: "host_display \<lparr>res_req = Some ?r2\<rparr> = str ''a..com''"
    by (rule host_display_linked [where req = ?r2]) (simp_all add: demo_req_def str_def)
  have a: "handler ?e \<lparr>res_req = Some ?r1\<rparr> ?r1
      = Inr \<lparr>resp = send404 \<lparr>res_req = Some ?r1\<rparr> (msg_invalid_domain @ str ''x/../y.com''),
             fs_log = []\<rparr>"
    using n1 handler_invalid [of ?r1 ?e "\<lparr>res_req = Some ?r1\<rparr>"] unfolding h1 by simp
  have b: "handler ?e \<lparr>res_req = Some ?r2\<rparr> ?r2
      = Inr \<lparr>resp = send404 \<lparr>res_req = Some ?r2\<rparr> msg_illegal_request, fs_log = []\<rparr>"
    using y2 i2 ne2 handler_blacklisted [of ?r2 ?e "\<lparr>res_req = Some ?r2\<rparr>"] unfolding h2 by simp
  show ?thesis
    unfolding a b h1 h2 send404_def notFoundHtml_def d1 d2
    using n1 y2 i2 by simp
qed


section \<open>The \<^verbatim>\<open>www.\<close> prefix\<close>






text \<open>
  The second variant does not strip the prefix at all: its \<^verbatim>\<open>replace\<close> looks
  for the literal text \<^verbatim>\<open>^www.\<close>. With a site for \<^verbatim>\<open>example.com\<close> in place,
  \<^verbatim>\<open>www.example.com\<close> is looked up in a directory of its own and gets 404, while
  \<^verbatim>\<open>example.com\<close> gets the site.
\<close>

lemma www_kept_by_second_variant:
  "host_v2 (demo_req (str ''www.example.com'') (str ''/'')) = str ''www.example.com''
   \<and> handler_v2 (demo_env (str ''/var/task/example.com/index.html'') (str ''<h1>hello</h1>''))
        (demo_req (str ''www.example.com'') (str ''/''))
      = Inr \<lparr>resp = \<lparr>status = 404, headers = [],
                      body = Send (msg2_not_created_pre @ str ''www.example.com''
                                    @ msg2_not_created_post)\<rparr>,
             fs_log = [Exists (str ''/var/task/www.example.com/index.html'')]\<rparr>
   \<and> handler_v2 (demo_env (str ''/var/task/example.com/index.html'') (str ''<h1>hello</h1>''))
        (demo_req (str ''example.com'') (str ''/''))
      = Inr \<lparr>resp = \<lparr>status = 200,
                      headers = [(str ''Content-Type'', str ''text/html; charset=utf-8'')],
                      body = Send (str ''<h1>hello</h1>'')\<rparr>,
             fs_log = [Exists (str ''/var/task/example.com/index.html''),
                       Read (str ''/var/task/example.com/index.html'')]\<rparr>"
proof -
  let ?e = "demo_env (str ''/var/task/example.com/index.html'') (str ''<h1>hello</h1>'')"
  have h1: "host_v2 (demo_req (str ''www.example.com'') (str ''/'')) = str ''www.example.com''"
    by code_simp
  have h2: "host_v2 (demo_req (str ''example.com'') (str ''/'')) = str ''example.com''"
    by code_simp
  have r1: "rx_test host_rx2 (str ''www.example.com'')" by code_simp
  have r2: "rx_test host_rx2 (str ''example.com'')" by code_simp
  have n: "str ''www.example.com'' \<noteq> []" "str ''example.com'' \<noteq> []" by (simp_all add: str_def)
  have p1: "path_join [str ''/var/task'', str ''www.example.com'', index_html]
      = str ''/var/task/www.example.com/index.html''" by code_simp
  have p2: "path_join [str ''/var/task'', str ''example.com'', index_html]
      = str ''/var/task/example.com/index.html''" by code_simp
  have c: "cwd ?e = Inr (str ''/var/task'')" by (simp add: demo_env_def)
  have x1: "\<not> existsSync ?e (str ''/var/task/www.example.com/index.html'')"
    by (simp add: demo_env_def) code_simp
  have x2: "existsSync ?e (str ''/var/task/example.com/index.html'')"
    "readFileSync ?e (str ''/var/task/example.com/index.html'') = Inr (str ''<h1>hello</h1>'')"
    by (simp_all add: demo_env_def)
  have a: "handler_v2 ?e (demo_req (str ''www.example.com'') (str ''/''))
      = Inr \<lparr>resp = \<lparr>status = 404, headers = [],
                      body = Send (msg2_not_created_pre @ str ''www.example.com''
                                    @ msg2_not_created_post)\<rparr>,
             fs_log = [Exists (str ''/var/task/www.example.com/index.html'')]\<rparr>"
    unfolding handler_v2_def h1 Let_def c sum.case p1 using r1 n x1 by simp
  have b: "handler_v2 ?e (demo_req (str ''example.com'') (str ''/''))
      = Inr \<lparr>resp = \<lparr>status = 200,
                      headers = [(str ''Content-Type'', str ''text/html; charset=utf-8'')],
                      body = Send (str ''<h1>hello</h1>'')\<rparr>,
             fs_log = [Exists (str ''/var/task/example.com/index.html''),
                       Read (str ''/var/task/example.com/index.html'')]\<rparr>"
    unfolding handler_v2_def h2 Let_def c sum.case p2 using r2 n x2 by simp
  from h1 a b show ?thesis by blast
qed

end
